theory Spec2Isabelle
  imports Main "HOL-Library.Sublist"
begin

section \<open>The Kubernetes service-registration client\<close>

text \<open>
  A shallow embedding of \<^verbatim>\<open>serviceregistration/kubernetes/client/client.go\<close>.
  Go strings and byte slices are \<^typ>\<open>string\<close>; a Go \<^verbatim>\<open>error\<close> that may be
  \<^verbatim>\<open>nil\<close> is an \<open>error option\<close>; a Go pair \<^verbatim>\<open>(v, err)\<close> is a sum
  \<open>error + 'a\<close>.
\<close>

subsection \<open>Constants and errors\<close>

text \<open>\<^verbatim>\<open>const maxRetries = 10\<close>\<close>

definition maxRetries :: nat where
  "maxRetries = 10"

text \<open>
  The error values of the package. The three sentinels made with \<^verbatim>\<open>errors.New\<close> at
  package level are compared by identity in Go, so each is a constructor of its own;
  \<^verbatim>\<open>*ErrNotFound\<close> is the struct type with its \<^verbatim>\<open>debuggingInfo\<close>;
  \<open>ErrorString\<close> is a value made on the spot by \<^verbatim>\<open>errors.New\<close> or
  \<^verbatim>\<open>fmt.Errorf\<close>; \<open>External\<close> is an error value made outside this file (by the
  HTTP transport, \<^verbatim>\<open>http.NewRequest\<close>, the JSON codec or the configuration loader)
  and handed through unchanged, with its text.
\<close>

datatype error =
    ErrNamespaceUnset
  | ErrPodNameUnset
  | ErrNotInCluster
  | ErrNotFound string
  | ErrorString string
  | External string

text \<open>The \<^verbatim>\<open>Error()\<close> method: the text of an error.\<close>

fun Error :: "error \<Rightarrow> string" where
  \<open>Error ErrNamespaceUnset = ''"namespace" is unset''\<close>
| \<open>Error ErrPodNameUnset = ''"podName" is unset''\<close>
| \<open>Error ErrNotInCluster = ''unable to load in-cluster configuration, KUBERNETES_SERVICE_HOST and KUBERNETES_SERVICE_PORT must be defined''\<close>
| \<open>Error (ErrNotFound debuggingInfo) = debuggingInfo\<close>
| \<open>Error (ErrorString s) = s\<close>
| \<open>Error (External s) = s\<close>

subsection \<open>Data\<close>

text \<open>
  \<^verbatim>\<open>Config\<close> is declared in another file of the package; this file reads its fields
  \<^verbatim>\<open>Host\<close>, \<^verbatim>\<open>BearerToken\<close> and \<^verbatim>\<open>CACertPool\<close>. The certificate pool is
  an opaque value here.
\<close>

record Config =
  Host :: string
  BearerToken :: string
  CACertPool :: string

record Metadata =
  Name :: string
  Labels :: "(string \<times> string) list option"

record Pod =
  Metadata :: "Metadata option"

text \<open>\<^verbatim>\<open>type PatchOperation string\<close> with its three constants.\<close>

type_synonym PatchOperation = string

definition Unset :: PatchOperation where
  "Unset = ''unset''"

definition Add :: PatchOperation where
  "Add = ''add''"

definition Replace :: PatchOperation where
  "Replace = ''replace''"

text \<open>\<^verbatim>\<open>Value interface{}\<close> is any Go value: a type parameter.\<close>

record 'v Patch =
  Operation :: PatchOperation
  Path :: string
  Value :: 'v

text \<open>
  The part of \<^verbatim>\<open>*http.Request\<close> this file and the transport touch. \<open>Body\<close>
  is an \<^verbatim>\<open>io.ReadCloser\<close>: \<open>None\<close> is the nil body and \<open>Some r\<close> is a reader
  whose unread bytes are \<open>r\<close>. \<open>Header\<close> is an association list from header name
  to value. \<open>ContentLength\<close> and \<open>GetBody\<close> are what \<^verbatim>\<open>http.NewRequest\<close> sets
  for a body given as a \<^verbatim>\<open>*bytes.Reader\<close>: the number of bytes, and a function that
  returns a fresh reader in front of the bytes the body had when the request was built
  (\<open>Some b\<close>, those bytes; \<open>None\<close> when the function is nil).
\<close>

record Request =
  Method :: string
  URL :: string
  Body :: "string option"
  Header :: "(string \<times> string) list"
  ContentLength :: nat
  GetBody :: "string option"

text \<open>
  The part of \<^verbatim>\<open>*http.Response\<close> this file touches: the status code, the body
  bytes, the headers (never read by this file), and the error that closing the body
  returns, if any.
\<close>

record Response =
  StatusCode :: nat
  RespBody :: string
  RespHeader :: "(string \<times> string) list"
  CloseErr :: "error option"

text \<open>
  The \<^verbatim>\<open>*http.Client\<close> built in \<^verbatim>\<open>do\<close>: a clean default client whose
  transport trusts \<open>RootCAs\<close>.
\<close>

record HttpClient =
  RootCAs :: string

text \<open>
  One call of \<^verbatim>\<open>client.Do\<close>, as the trace keeps it: what the transport puts on the
  wire, and whether it could write it at all (\<open>wWritten\<close>; when it could not, nothing
  reached the server and \<open>wBody\<close> is what the body reader gave).
\<close>

record WireCall =
  wMethod :: string
  wURL :: string
  wHeader :: "(string \<times> string) list"
  wBody :: string
  wRootCAs :: string
  wWritten :: bool

subsection \<open>Environment and state\<close>

text \<open>
  Everything outside this file is an oracle of the environment:
  \<^item> \<open>net k w\<close>: the outcome of the \<open>k\<close>-th network call (counted from 0) that puts
    \<open>w\<close> on the wire: a transport error or a response;
  \<^item> \<open>reused k\<close>: whether the \<open>k\<close>-th call finds an idle connection that the server
    kept alive after an earlier call, rather than dialling a new one;
  \<^item> \<open>writeError k w\<close>: the error \<^verbatim>\<open>client.Do\<close> returns when the transport
    could not write the request of the \<open>k\<close>-th call;
  \<^item> \<open>inClusterConfig k\<close>: the result of the \<open>k\<close>-th call of
    \<^verbatim>\<open>inClusterConfig()\<close>, a function of the package that lives in another file;
  \<^item> \<open>stopFirst i\<close>: whether, in the \<^verbatim>\<open>select\<close> before attempt \<open>i\<close>, the receive
    from \<^verbatim>\<open>c.stopCh\<close> is the case taken (the channel is closed and the back-off timer
    has not fired first);
  \<^item> \<open>decode\<close>: \<^verbatim>\<open>json.NewDecoder(body).Decode(ptr)\<close>, giving the error if any and
    the object as the decoder leaves it;
  \<^item> \<open>marshal\<close>: \<^verbatim>\<open>json.Marshal\<close> of the list of patch maps, each with its
    \<^verbatim>\<open>op\<close>, \<^verbatim>\<open>path\<close> and \<^verbatim>\<open>value\<close>;
  \<^item> \<open>parseURL\<close>: the URL parsing of \<^verbatim>\<open>http.NewRequest\<close>, giving the text that
    \<^verbatim>\<open>req.URL\<close> prints as, or the error.
\<close>

record 'v Env =
  net :: "nat \<Rightarrow> WireCall \<Rightarrow> error + Response"
  reused :: "nat \<Rightarrow> bool"
  writeError :: "nat \<Rightarrow> WireCall \<Rightarrow> error"
  inClusterConfig :: "nat \<Rightarrow> error + Config"
  stopFirst :: "nat \<Rightarrow> bool"
  decode :: "string \<Rightarrow> Pod \<Rightarrow> error option \<times> Pod"
  marshal :: "(PatchOperation \<times> string \<times> 'v) list \<Rightarrow> error + string"
  parseURL :: "string \<Rightarrow> error + string"

text \<open>
  The state a call threads through. \<open>IsWarn\<close> (what \<^verbatim>\<open>c.logger.IsWarn()\<close> answers)
  and \<open>config\<close> are the fields of \<^verbatim>\<open>Client\<close>; the rest is the trace of effects:
  the network calls made, the number of configuration reloads, the loop indices at
  which the \<^verbatim>\<open>select\<close> on the stop channel ran, what each call of
  \<^verbatim>\<open>attemptRequest\<close> returned to the loop, and the warnings logged.
\<close>

record State =
  IsWarn :: bool
  config :: Config
  calls :: "WireCall list"
  reloads :: nat
  selects :: "nat list"
  attempts :: "(bool \<times> error option) list"
  warnings :: "string list"

subsection \<open>Library functions used by the file\<close>

text \<open>\<^verbatim>\<open>fmt.Sprintf("%d", n)\<close> for a status code.\<close>

definition digit :: "nat \<Rightarrow> char" where
  "digit d = ''0123456789'' ! d"

fun itoa :: "nat \<Rightarrow> string" where
  "itoa n = (if n < 10 then [digit n] else itoa (n div 10) @ [digit (n mod 10)])"

declare itoa.simps [simp del]

text \<open>
  \<^verbatim>\<open>ioutil.ReadAll\<close> on a reader: the bytes read and the reader afterwards, which is
  at its end.
\<close>

definition ReadAll :: "string \<Rightarrow> string \<times> string" where
  "ReadAll r = (r, [])"

text \<open>\<^verbatim>\<open>bytes.NewReader\<close>: a fresh reader in front of all the bytes.\<close>

definition NewReader :: "string \<Rightarrow> string" where
  "NewReader b = b"

text \<open>\<^verbatim>\<open>Header.Set\<close>: the value replaces whatever the key had.\<close>

definition Header_Set :: "string \<Rightarrow> string \<Rightarrow> (string \<times> string) list \<Rightarrow> (string \<times> string) list" where
  "Header_Set k v h = (k, v) # filter (\<lambda>p. fst p \<noteq> k) h"

text \<open>\<^verbatim>\<open>Header.Get\<close>: the value of a key, empty when absent.\<close>

definition Header_Get :: "string \<Rightarrow> (string \<times> string) list \<Rightarrow> string" where
  "Header_Get k h = (case map_of h k of None \<Rightarrow> [] | Some v \<Rightarrow> v)"

text \<open>
  \<^verbatim>\<open>http.NewRequest(method, url, body)\<close>: fails when the URL does not parse. The body
  is nil or a \<^verbatim>\<open>*bytes.Reader\<close>; for the reader the content length is the number
  of its bytes and \<open>GetBody\<close> keeps them.
\<close>

definition NewRequest :: "'v Env \<Rightarrow> string \<Rightarrow> string \<Rightarrow> string option \<Rightarrow> error + Request" where
  "NewRequest env method url body =
     (case parseURL env url of
        Inl e \<Rightarrow> Inl e
      | Inr u \<Rightarrow>
          Inr \<lparr>Method = method, URL = u, Body = body, Header = [],
               ContentLength = (case body of None \<Rightarrow> 0 | Some b \<Rightarrow> length b),
               GetBody = body\<rparr>)"

text \<open>
  The transport of \<^verbatim>\<open>net/http\<close>, for the small in-memory bodies of this client.
  It reads \<^verbatim>\<open>req.Body\<close> to its end, which leaves that reader at its end. When the
  request announces a content length and the reader gives another number of bytes
  (\<open>mismatch\<close>), the transport gives up before anything is written; if the connection
  was a reused one and the request has a \<open>GetBody\<close> of the announced length, it then
  rewinds (\<open>rewinds\<close>): it sends, on another connection, a copy of the request whose
  body is a fresh reader from \<open>GetBody\<close>, and \<^verbatim>\<open>req.Body\<close> itself stays at its
  end. Otherwise \<^verbatim>\<open>client.Do\<close> returns the write error.
\<close>

definition mismatch :: "Request \<Rightarrow> bool" where
  "mismatch req =
     (case Body req of
        None \<Rightarrow> False
      | Some r \<Rightarrow> ContentLength req \<noteq> 0 \<and> length r \<noteq> ContentLength req)"

definition rewinds :: "'v Env \<Rightarrow> nat \<Rightarrow> Request \<Rightarrow> bool" where
  "rewinds env k req =
     (mismatch req \<and> reused env k
      \<and> (case GetBody req of None \<Rightarrow> False | Some b \<Rightarrow> length b = ContentLength req))"

text \<open>
  \<^verbatim>\<open>client.Do(req)\<close>: the call is appended to the trace; when the request was
  written, the outcome of the exchange is the environment's.
\<close>

definition Do :: "'v Env \<Rightarrow> HttpClient \<Rightarrow> State \<Rightarrow> Request \<Rightarrow> (error + Response) \<times> State \<times> Request" where
  "Do env client st req =
     (let k = length (calls st);
          read = (case Body req of None \<Rightarrow> [] | Some r \<Rightarrow> fst (ReadAll r));
          body' = (case Body req of None \<Rightarrow> None | Some r \<Rightarrow> Some (snd (ReadAll r)));
          sent = (if rewinds env k req
                  then (case GetBody req of None \<Rightarrow> read | Some b \<Rightarrow> fst (ReadAll (NewReader b)))
                  else read);
          w = \<lparr>wMethod = Method req, wURL = URL req, wHeader = Header req,
               wBody = sent, wRootCAs = RootCAs client,
               wWritten = (if mismatch req then rewinds env k req else True)\<rparr>
      in (if wWritten w then net env k w else Inl (writeError env k w),
          st\<lparr>calls := calls st @ [w]\<rparr>, req\<lparr>Body := body'\<rparr>))"

subsection \<open>sanitizedDebuggingInfo\<close>

text \<open>
  \<^verbatim>\<open>fmt.Sprintf("req method: %s, req url: %s, req body: %s, resp statuscode: %d, resp respBody: %s", ...)\<close>
\<close>

definition sanitizedDebuggingInfo :: "Request \<Rightarrow> string \<Rightarrow> Response \<Rightarrow> string" where
  "sanitizedDebuggingInfo req reqBody resp =
     (let respBody = fst (ReadAll (RespBody resp))
      in ''req method: '' @ Method req @ '', req url: '' @ URL req @ '', req body: '' @ reqBody
         @ '', resp statuscode: '' @ itoa (StatusCode resp) @ '', resp respBody: '' @ respBody)"

subsection \<open>attemptRequest\<close>

text \<open>
  The deferred function of \<^verbatim>\<open>attemptRequest\<close>: close the response body, and log a
  warning when that fails and the logger takes warnings.
\<close>

definition closeBody :: "State \<Rightarrow> Response \<Rightarrow> State" where
  "closeBody st resp =
     (case CloseErr resp of
        None \<Rightarrow> st
      | Some e \<Rightarrow>
          if IsWarn st
          then st\<lparr>warnings := warnings st @ [''unable to close response body: '' @ Error e]\<rparr>
          else st)"

text \<open>
  One single request. The result is \<^verbatim>\<open>(shouldRetry, err)\<close> with the state, the
  request and the return object as the attempt leaves them.
\<close>

definition attemptRequest ::
  "'v Env \<Rightarrow> HttpClient \<Rightarrow> State \<Rightarrow> Request \<Rightarrow> Pod option
     \<Rightarrow> bool \<times> error option \<times> State \<times> Request \<times> Pod option" where
  "attemptRequest env client st req ptrToReturnObj =
     (let reqBody = (case Body req of None \<Rightarrow> [] | Some r \<Rightarrow> fst (ReadAll r));
          req = (case Body req of None \<Rightarrow> req | Some r \<Rightarrow> req\<lparr>Body := Some (NewReader reqBody)\<rparr>)
      in case Do env client st req of
           (Inl err, st, req) \<Rightarrow> (False, Some err, st, req, ptrToReturnObj)
         | (Inr resp, st, req) \<Rightarrow>
             if StatusCode resp \<in> {200, 201, 202, 204} then
               (case ptrToReturnObj of
                  None \<Rightarrow> (False, None, closeBody st resp, req, None)
                | Some obj \<Rightarrow>
                    (case decode env (RespBody resp) obj of
                       (err, obj) \<Rightarrow> (False, err, closeBody st resp, req, Some obj)))
             else if StatusCode resp \<in> {401, 403} then
               (case inClusterConfig env (reloads st) of
                  Inl err \<Rightarrow>
                    (False, Some err, closeBody (st\<lparr>reloads := Suc (reloads st)\<rparr>) resp,
                     req, ptrToReturnObj)
                | Inr cfg \<Rightarrow>
                    if BearerToken cfg = BearerToken (config st) then
                      (False,
                       Some (ErrorString (''bad status code: '' @ sanitizedDebuggingInfo req reqBody resp)),
                       closeBody (st\<lparr>reloads := Suc (reloads st)\<rparr>) resp, req, ptrToReturnObj)
                    else
                      (True,
                       Some (ErrorString (''bad status code: '' @ sanitizedDebuggingInfo req reqBody resp)),
                       closeBody (st\<lparr>reloads := Suc (reloads st), config := cfg\<rparr>) resp,
                       req, ptrToReturnObj))
             else if StatusCode resp = 404 then
               (False, Some (ErrNotFound (sanitizedDebuggingInfo req reqBody resp)),
                closeBody st resp, req, ptrToReturnObj)
             else if StatusCode resp \<in> {500, 502, 503, 504} then
               (True,
                Some (ErrorString (''unexpected status code: '' @ sanitizedDebuggingInfo req reqBody resp)),
                closeBody st resp, req, ptrToReturnObj)
             else
               (False,
                Some (ErrorString (''unexpected status code: '' @ sanitizedDebuggingInfo req reqBody resp)),
                closeBody st resp, req, ptrToReturnObj))"

subsection \<open>do\<close>

text \<open>
  The loop \<^verbatim>\<open>for i := 0; i < maxRetries; i++\<close> of \<^verbatim>\<open>do\<close>, from index \<open>i\<close> on,
  with \<^verbatim>\<open>lastErr\<close>. Before every attempt but the first, the \<^verbatim>\<open>select\<close> runs: it
  is logged, and when the stop channel is the case taken the call returns nil. What
  each attempt returns is logged too.
\<close>

function do_loop ::
  "'v Env \<Rightarrow> HttpClient \<Rightarrow> nat \<Rightarrow> error option \<Rightarrow> State \<Rightarrow> Request \<Rightarrow> Pod option
     \<Rightarrow> error option \<times> State \<times> Request \<times> Pod option" where
  "do_loop env client i lastErr st req ptrToReturnObj =
     (if i < maxRetries then
        (if i \<noteq> 0 \<and> stopFirst env i then
           (None, st\<lparr>selects := selects st @ [i]\<rparr>, req, ptrToReturnObj)
         else
           (case attemptRequest env client
                   (if i \<noteq> 0 then st\<lparr>selects := selects st @ [i]\<rparr> else st) req ptrToReturnObj of
              (shouldRetry, err, st', req', obj') \<Rightarrow>
                (let st' = st'\<lparr>attempts := attempts st' @ [(shouldRetry, err)]\<rparr>
                 in if \<not> shouldRetry then (err, st', req', obj')
                    else do_loop env client (i + 1) err st' req' obj')))
      else (lastErr, st, req, ptrToReturnObj))"
  by pat_completeness auto
termination
  by (relation "measure (\<lambda>(env, client, i, lastErr, st, req, obj). maxRetries - i)") auto

declare do_loop.simps [simp del]

text \<open>
  \<^verbatim>\<open>do\<close>: set the two headers from the configuration held now, build the client
  with the configuration's certificate pool, and run the loop.
\<close>

definition do :: "'v Env \<Rightarrow> State \<Rightarrow> Request \<Rightarrow> Pod option
     \<Rightarrow> error option \<times> State \<times> Request \<times> Pod option" where
  "do env st req ptrToReturnObj =
     (let req = req\<lparr>Header := Header_Set ''Authorization'' (''Bearer '' @ BearerToken (config st)) (Header req)\<rparr>;
          req = req\<lparr>Header := Header_Set ''Accept'' ''application/json'' (Header req)\<rparr>;
          client = \<lparr>RootCAs = CACertPool (config st)\<rparr>
      in do_loop env client 0 None st req ptrToReturnObj)"

subsection \<open>GetPod and PatchPod\<close>

definition endpoint_of :: "string \<Rightarrow> string \<Rightarrow> string" where
  "endpoint_of namespace podName = ''/api/v1/namespaces/'' @ namespace @ ''/pods/'' @ podName"

definition GetPod :: "'v Env \<Rightarrow> State \<Rightarrow> string \<Rightarrow> string \<Rightarrow> (error + Pod) \<times> State" where
  "GetPod env st namespace podName =
     (let endpoint = endpoint_of namespace podName;
          method = ''GET''
      in if namespace = [] then (Inl ErrNamespaceUnset, st)
         else if podName = [] then (Inl ErrPodNameUnset, st)
         else
           (case NewRequest env method (Host (config st) @ endpoint) None of
              Inl err \<Rightarrow> (Inl err, st)
            | Inr req \<Rightarrow>
                (case do env st req (Some \<lparr>Metadata = None\<rparr>) of
                   (Some err, st', _, _) \<Rightarrow> (Inl err, st')
                 | (None, st', _, Some pod) \<Rightarrow> (Inr pod, st')
                 | (None, st', _, None) \<Rightarrow> (Inr \<lparr>Metadata = None\<rparr>, st'))))"

text \<open>
  The loop of \<^verbatim>\<open>PatchPod\<close> that builds \<^verbatim>\<open>jsonPatches\<close>: it stops at the first
  patch whose operation is \<^verbatim>\<open>Unset\<close>.
\<close>

fun jsonPatches_loop ::
  "'v Patch list \<Rightarrow> (PatchOperation \<times> string \<times> 'v) list \<Rightarrow> error + (PatchOperation \<times> string \<times> 'v) list" where
  "jsonPatches_loop [] jsonPatches = Inr jsonPatches"
| "jsonPatches_loop (patch # patches) jsonPatches =
     (if Operation patch = Unset then Inl (ErrorString ''patch operation must be set'')
      else jsonPatches_loop patches (jsonPatches @ [(Operation patch, Path patch, Value patch)]))"

definition PatchPod :: "'v Env \<Rightarrow> State \<Rightarrow> string \<Rightarrow> string \<Rightarrow> 'v Patch list \<Rightarrow> error option \<times> State" where
  "PatchPod env st namespace podName patches =
     (let endpoint = endpoint_of namespace podName;
          method = ''PATCH''
      in if namespace = [] then (Some ErrNamespaceUnset, st)
         else if podName = [] then (Some ErrPodNameUnset, st)
         else if length patches = 0 then (None, st)
         else
           (case jsonPatches_loop patches [] of
              Inl err \<Rightarrow> (Some err, st)
            | Inr jsonPatches \<Rightarrow>
                (case marshal env jsonPatches of
                   Inl err \<Rightarrow> (Some err, st)
                 | Inr body \<Rightarrow>
                     (case NewRequest env method (Host (config st) @ endpoint) (Some (NewReader body)) of
                        Inl err \<Rightarrow> (Some err, st)
                      | Inr req \<Rightarrow>
                          (case do env st
                                  (req\<lparr>Header := Header_Set ''Content-Type'' ''application/json-patch+json'' (Header req)\<rparr>)
                                  None of
                             (err, st', _, _) \<Rightarrow> (err, st'))))))"

subsection \<open>Vocabulary for the statements\<close>

text \<open>The bytes a request's body still holds (none for a nil body).\<close>

definition bodyBytes :: "Request \<Rightarrow> string" where
  "bodyBytes req = (case Body req of None \<Rightarrow> [] | Some r \<Rightarrow> r)"

text \<open>
  The call that the client makes in state \<open>st\<close> with \<open>req\<close>: the bytes of the body
  reader go on the wire, or those of \<open>GetBody\<close> when the transport rewinds.
\<close>

definition wire_of :: "'v Env \<Rightarrow> HttpClient \<Rightarrow> State \<Rightarrow> Request \<Rightarrow> WireCall" where
  "wire_of env client st req =
     \<lparr>wMethod = Method req, wURL = URL req, wHeader = Header req,
      wBody = (if rewinds env (length (calls st)) req
               then (case GetBody req of None \<Rightarrow> bodyBytes req | Some b \<Rightarrow> b)
               else bodyBytes req),
      wRootCAs = RootCAs client,
      wWritten = (if mismatch req then rewinds env (length (calls st)) req else True)\<rparr>"

text \<open>The request after it has been sent: its body reader is at its end.\<close>

definition drained :: "Request \<Rightarrow> Request" where
  "drained req = req\<lparr>Body := (case Body req of None \<Rightarrow> None | Some r \<Rightarrow> Some [])\<rparr>"

text \<open>
  What \<^verbatim>\<open>client.Do\<close> returns for the \<open>k\<close>-th call \<open>w\<close>: the environment's answer
  when the request was written, the write error otherwise; and what it returns for the
  call made in state \<open>st\<close> with \<open>req\<close>.
\<close>

definition answer :: "'v Env \<Rightarrow> nat \<Rightarrow> WireCall \<Rightarrow> error + Response" where
  "answer env k w = (if wWritten w then net env k w else Inl (writeError env k w))"

definition received :: "'v Env \<Rightarrow> HttpClient \<Rightarrow> State \<Rightarrow> Request \<Rightarrow> error + Response" where
  "received env client st req = answer env (length (calls st)) (wire_of env client st req)"

text \<open>The two trace entries the loop writes.\<close>

definition log_select :: "nat \<Rightarrow> State \<Rightarrow> State" where
  "log_select i st = (if i \<noteq> 0 then st\<lparr>selects := selects st @ [i]\<rparr> else st)"

definition log_attempt :: "bool \<Rightarrow> error option \<Rightarrow> State \<Rightarrow> State" where
  "log_attempt r err st = st\<lparr>attempts := attempts st @ [(r, err)]\<rparr>"

text \<open>The request and the client as \<^verbatim>\<open>do\<close> sets them up before its loop.\<close>

definition do_request :: "State \<Rightarrow> Request \<Rightarrow> Request" where
  "do_request st req =
     req\<lparr>Header := Header_Set ''Accept'' ''application/json''
              (Header_Set ''Authorization'' (''Bearer '' @ BearerToken (config st)) (Header req))\<rparr>"

definition do_client :: "State \<Rightarrow> HttpClient" where
  "do_client st = \<lparr>RootCAs = CACertPool (config st)\<rparr>"

text \<open>The type assertion \<^verbatim>\<open>err.(*ErrNotFound)\<close> a caller branches on.\<close>

fun isErrNotFound :: "error \<Rightarrow> bool" where
  "isErrNotFound (ErrNotFound d) = True"
| "isErrNotFound e = False"

text \<open>
  The text of \<^verbatim>\<open>sanitizedDebuggingInfo\<close> as a function of the five values it
  prints, and the error that \<^verbatim>\<open>attemptRequest\<close> formats for a response whose
  status is not a success: the text after a fixed prefix, or as the
  \<^verbatim>\<open>debuggingInfo\<close> of an \<^verbatim>\<open>ErrNotFound\<close>.
\<close>

definition debuggingText :: "string \<Rightarrow> string \<Rightarrow> string \<Rightarrow> nat \<Rightarrow> string \<Rightarrow> string" where
  "debuggingText method url reqBody status respBody =
     ''req method: '' @ method @ '', req url: '' @ url @ '', req body: '' @ reqBody
     @ '', resp statuscode: '' @ itoa status @ '', resp respBody: '' @ respBody"

definition status_error :: "string \<Rightarrow> string \<Rightarrow> string \<Rightarrow> Response \<Rightarrow> error" where
  "status_error method url reqBody resp =
     (if StatusCode resp \<in> {401, 403} then
        ErrorString (''bad status code: ''
          @ debuggingText method url reqBody (StatusCode resp) (RespBody resp))
      else if StatusCode resp = 404 then
        ErrNotFound (debuggingText method url reqBody (StatusCode resp) (RespBody resp))
      else
        ErrorString (''unexpected status code: ''
          @ debuggingText method url reqBody (StatusCode resp) (RespBody resp)))"

subsection \<open>Sample inputs\<close>

definition resp_of :: "nat \<Rightarrow> string \<Rightarrow> Response" where
  "resp_of code body = \<lparr>StatusCode = code, RespBody = body, RespHeader = [], CloseErr = None\<rparr>"

definition cfg_old :: Config where
  "cfg_old = \<lparr>Host = ''https://k8s'', BearerToken = ''old'', CACertPool = ''ca-old''\<rparr>"

definition cfg_new :: Config where
  "cfg_new = \<lparr>Host = ''https://k8s'', BearerToken = ''new'', CACertPool = ''ca-new''\<rparr>"

definition st0 :: State where
  "st0 = \<lparr>IsWarn = True, config = cfg_old, calls = [], reloads = 0, selects = [],
           attempts = [], warnings = []\<rparr>"

text \<open>
  An environment whose \<open>k\<close>-th network call is answered by \<open>n k\<close>, with the given
  configuration loader and stop signal; the server keeps connections alive, so every
  call after the first finds a reused connection; the decoder reads the body as the
  pod's name and the encoder writes each patch as its operation and path.
\<close>

definition env_of :: "(nat \<Rightarrow> Response) \<Rightarrow> (nat \<Rightarrow> error + Config) \<Rightarrow> (nat \<Rightarrow> bool) \<Rightarrow> unit Env" where
  "env_of n c s = \<lparr>net = (\<lambda>k w. Inr (n k)), reused = (\<lambda>k. 0 < k),
     writeError = (\<lambda>k w. External ''http: ContentLength does not match the body length''),
     inClusterConfig = c, stopFirst = s,
     decode = (\<lambda>b p. (None, \<lparr>Metadata = Some \<lparr>Name = b, Labels = None\<rparr>\<rparr>)),
     marshal = (\<lambda>ps. Inr (concat (map (\<lambda>(op, path, v). op @ path) ps))),
     parseURL = Inr\<rparr>"

definition patch0 :: "unit Patch" where
  "patch0 = \<lparr>Operation = Add, Path = ''/metadata/labels/x'', Value = ()\<rparr>"

definition req_get :: Request where
  "req_get = \<lparr>Method = ''GET'', URL = ''https://k8s/api/v1/namespaces/default/pods/vault-0'',
               Body = None, Header = [], ContentLength = 0, GetBody = None\<rparr>"

text \<open>Sample environments, named after what the server and the loader answer.\<close>

definition env503 :: "unit Env" where
  "env503 = env_of (\<lambda>k. resp_of 503 ''busy'') (\<lambda>k. Inr cfg_new) (\<lambda>i. False)"

definition env_stop :: "unit Env" where
  "env_stop = env_of (\<lambda>k. resp_of 503 ''busy'') (\<lambda>k. Inr cfg_new) (\<lambda>i. True)"

definition env_same_token :: "unit Env" where
  "env_same_token = env_of (\<lambda>k. resp_of 401 ''Unauthorized'') (\<lambda>k. Inr cfg_old) (\<lambda>i. False)"

definition env_not_in_cluster :: "unit Env" where
  "env_not_in_cluster = env_of (\<lambda>k. resp_of 403 ''Forbidden'') (\<lambda>k. Inl ErrNotInCluster) (\<lambda>i. False)"

definition env_404 :: "unit Env" where
  "env_404 = env_of (\<lambda>k. resp_of 404 ''gone'') (\<lambda>k. Inr cfg_new) (\<lambda>i. False)"


definition env_refresh :: "unit Env" where
  "env_refresh = env_of (\<lambda>k. if k = 0 then resp_of 401 ''Unauthorized'' else resp_of 200 ''vault-0'')
     (\<lambda>k. Inr cfg_new) (\<lambda>i. False)"

text \<open>
  A server that answers 503 to every call and keeps the connection alive, and one that
  answers 503 and closes the connection, so that every call dials a new one.
\<close>

definition env_keepalive_503 :: "unit Env" where
  "env_keepalive_503 = env_of (\<lambda>k. resp_of 503 ''busy'') (\<lambda>k. Inr cfg_new) (\<lambda>i. False)"

definition env_close_503 :: "unit Env" where
  \<open>env_close_503 =
     (env_of (\<lambda>k. resp_of 503 ''busy'') (\<lambda>k. Inr cfg_new) (\<lambda>i. False))
       \<lparr>reused := (\<lambda>k. False),
        writeError := (\<lambda>k w. External ''Patch "https://k8s/api/v1/namespaces/default/pods/vault-0": http: ContentLength=21 with Body length 0'')\<rparr>\<close>


section \<open>Properties\<close>

subsection \<open>One attempt\<close>

lemma Do_eq:
  "Do env client st req =
     (received env client st req, st\<lparr>calls := calls st @ [wire_of env client st req]\<rparr>, drained req)"
  by (cases "Body req")
     (simp_all add: Do_def Let_def received_def answer_def wire_of_def bodyBytes_def drained_def ReadAll_def
        NewReader_def split: option.splits)

lemma reqBody_eq: "(case Body req of None \<Rightarrow> [] | Some r \<Rightarrow> fst (ReadAll r)) = bodyBytes req"
  by (cases "Body req") (simp_all add: bodyBytes_def ReadAll_def)

lemma readd_eq:
  "(case Body req of None \<Rightarrow> req | Some r \<Rightarrow> req\<lparr>Body := Some (NewReader (bodyBytes req))\<rparr>) = req"
  by (cases "Body req") (simp_all add: NewReader_def bodyBytes_def)

lemma sanitizedDebuggingInfo_drained [simp]:
  "sanitizedDebuggingInfo (drained req) b resp = sanitizedDebuggingInfo req b resp"
  by (simp add: sanitizedDebuggingInfo_def drained_def)

text \<open>The attempt, branch by branch, in the vocabulary above.\<close>

lemma attemptRequest_eq:
  "attemptRequest env client st req obj =
     (let st1 = st\<lparr>calls := calls st @ [wire_of env client st req]\<rparr>
      in case received env client st req of
           Inl err \<Rightarrow> (False, Some err, st1, drained req, obj)
         | Inr resp \<Rightarrow>
             if StatusCode resp \<in> {200, 201, 202, 204} then
               (case obj of
                  None \<Rightarrow> (False, None, closeBody st1 resp, drained req, None)
                | Some p \<Rightarrow> (False, fst (decode env (RespBody resp) p), closeBody st1 resp, drained req,
                      Some (snd (decode env (RespBody resp) p))))
             else if StatusCode resp \<in> {401, 403} then
               (case inClusterConfig env (reloads st) of
                  Inl err \<Rightarrow> (False, Some err, closeBody (st1\<lparr>reloads := Suc (reloads st)\<rparr>) resp, drained req, obj)
                | Inr cfg \<Rightarrow>
                    if BearerToken cfg = BearerToken (config st) then
                      (False, Some (ErrorString (''bad status code: '' @ sanitizedDebuggingInfo req (bodyBytes req) resp)),
                       closeBody (st1\<lparr>reloads := Suc (reloads st)\<rparr>) resp, drained req, obj)
                    else
                      (True, Some (ErrorString (''bad status code: '' @ sanitizedDebuggingInfo req (bodyBytes req) resp)),
                       closeBody (st1\<lparr>reloads := Suc (reloads st), config := cfg\<rparr>) resp, drained req, obj))
             else if StatusCode resp = 404 then
               (False, Some (ErrNotFound (sanitizedDebuggingInfo req (bodyBytes req) resp)),
                closeBody st1 resp, drained req, obj)
             else if StatusCode resp \<in> {500, 502, 503, 504} then
               (True, Some (ErrorString (''unexpected status code: '' @ sanitizedDebuggingInfo req (bodyBytes req) resp)),
                closeBody st1 resp, drained req, obj)
             else
               (False, Some (ErrorString (''unexpected status code: '' @ sanitizedDebuggingInfo req (bodyBytes req) resp)),
                closeBody st1 resp, drained req, obj))"
  unfolding attemptRequest_def reqBody_eq readd_eq Let_def Do_eq
  by (cases "received env client st req"; cases obj; cases "inClusterConfig env (reloads st)")
     (simp_all add: case_prod_beta)

lemma closeBody_fields [simp]:
  "calls (closeBody st resp) = calls st"
  "config (closeBody st resp) = config st"
  "reloads (closeBody st resp) = reloads st"
  "selects (closeBody st resp) = selects st"
  "attempts (closeBody st resp) = attempts st"
  "IsWarn (closeBody st resp) = IsWarn st"
  by (simp_all add: closeBody_def split: option.splits)

lemma log_select_fields [simp]:
  "calls (log_select i st) = calls st"
  "config (log_select i st) = config st"
  "reloads (log_select i st) = reloads st"
  "attempts (log_select i st) = attempts st"
  "IsWarn (log_select i st) = IsWarn st"
  "warnings (log_select i st) = warnings st"
  by (simp_all add: log_select_def)

lemma log_attempt_fields [simp]:
  "calls (log_attempt r e st) = calls st"
  "config (log_attempt r e st) = config st"
  "reloads (log_attempt r e st) = reloads st"
  "selects (log_attempt r e st) = selects st"
  "attempts (log_attempt r e st) = attempts st @ [(r, e)]"
  "IsWarn (log_attempt r e st) = IsWarn st"
  "warnings (log_attempt r e st) = warnings st"
  by (simp_all add: log_attempt_def)

lemma wire_of_log_select [simp]:
  "wire_of env client (log_select i st) req = wire_of env client st req"
  by (simp add: wire_of_def)

lemma received_log_select [simp]:
  "received env client (log_select i st) req = received env client st req"
  by (simp add: received_def)

lemma received_nil_body:
  "Body req = None \<Longrightarrow>
   received env client st req = net env (length (calls st)) (wire_of env client st req)"
  by (simp add: received_def answer_def wire_of_def mismatch_def)

lemma received_Inr:
  "received env client st req = Inr resp \<Longrightarrow>
   wWritten (wire_of env client st req)
   \<and> net env (length (calls st)) (wire_of env client st req) = Inr resp"
  by (simp add: received_def answer_def split: if_splits)

lemma attemptRequest_trace:
  assumes "attemptRequest env client st req obj = (r, err, st', req', obj')"
  shows "calls st' = calls st @ [wire_of env client st req]" and "req' = drained req"
    and "selects st' = selects st" and "attempts st' = attempts st" and "IsWarn st' = IsWarn st"
  using assms unfolding attemptRequest_eq Let_def
  by (auto split: sum.splits option.splits if_splits)

subsection \<open>The loop, step by step\<close>

lemma do_loop_done:
  "\<not> i < maxRetries \<Longrightarrow> do_loop env client i lastErr st req obj = (lastErr, st, req, obj)"
  by (simp add: do_loop.simps)

lemma do_loop_stop:
  "i < maxRetries \<Longrightarrow> i \<noteq> 0 \<Longrightarrow> stopFirst env i \<Longrightarrow>
   do_loop env client i lastErr st req obj = (None, st\<lparr>selects := selects st @ [i]\<rparr>, req, obj)"
  by (simp add: do_loop.simps)

lemma do_loop_terminal:
  "i < maxRetries \<Longrightarrow> i = 0 \<or> \<not> stopFirst env i \<Longrightarrow>
   attemptRequest env client (log_select i st) req obj = (False, err, st', req', obj') \<Longrightarrow>
   do_loop env client i lastErr st req obj = (err, log_attempt False err st', req', obj')"
  by (subst do_loop.simps) (auto simp: log_select_def log_attempt_def)

lemma do_loop_retry:
  "i < maxRetries \<Longrightarrow> i = 0 \<or> \<not> stopFirst env i \<Longrightarrow>
   attemptRequest env client (log_select i st) req obj = (True, err, st', req', obj') \<Longrightarrow>
   do_loop env client i lastErr st req obj
     = do_loop env client (Suc i) err (log_attempt True err st') req' obj'"
  by (subst do_loop.simps) (auto simp: log_select_def log_attempt_def)

lemma do_eq: "do env st req obj = do_loop env (do_client st) 0 None st (do_request st req) obj"
  by (simp add: do_def do_request_def do_client_def Let_def)

text \<open>Rules that evaluate a run on a sample input.\<close>

lemmas eval_rules =
  do_def do_loop.simps [of _ _ 0] do_loop.simps [of _ _ "Suc 0"] attemptRequest_eq
  received_def answer_def wire_of_def bodyBytes_def drained_def closeBody_def sanitizedDebuggingInfo_def
  ReadAll_def NewReader_def NewRequest_def Header_Set_def Header_Get_def maxRetries_def
  mismatch_def rewinds_def
  endpoint_of_def env_of_def resp_of_def st0_def cfg_old_def cfg_new_def req_get_def
  Add_def Unset_def Let_def

lemma itoa_samples:
  "itoa 200 = ''200''" "itoa 401 = ''401''" "itoa 403 = ''403''" "itoa 404 = ''404''"
  "itoa 503 = ''503''"
  by (simp_all add: itoa.simps digit_def)

lemma sanitizedDebuggingInfo_eq:
  "sanitizedDebuggingInfo req reqBody resp
     = debuggingText (Method req) (URL req) reqBody (StatusCode resp) (RespBody resp)"
  by (simp add: sanitizedDebuggingInfo_def debuggingText_def ReadAll_def)

lemma attempt_cases:
  obtains r err st' req' obj' where
    "attemptRequest env client st req obj = (r, err, st', req', obj')"
  by (metis prod_cases5)

lemma attemptRequest_retry_error:
  "attemptRequest env client st req obj = (True, err, st', req', obj') \<Longrightarrow> err \<noteq> None"
  unfolding attemptRequest_eq Let_def
  by (auto split: sum.splits option.splits if_splits)

lemma attemptRequest_5xx:
  assumes "received env client st req = Inr resp" "StatusCode resp \<in> {500, 502, 503, 504}"
  shows "fst (attemptRequest env client st req obj)"
  using assms unfolding attemptRequest_eq Let_def by auto

lemma wire_of_stopFirst [simp]:
  "wire_of (env\<lparr>stopFirst := f\<rparr>) client st req = wire_of env client st req"
  by (simp add: wire_of_def rewinds_def)

lemma received_stopFirst [simp]:
  "received (env\<lparr>stopFirst := f\<rparr>) client st req = received env client st req"
  by (simp add: received_def answer_def)

lemma attemptRequest_stopFirst [simp]:
  "attemptRequest (env\<lparr>stopFirst := f\<rparr>) client st req obj = attemptRequest env client st req obj"
  by (simp add: attemptRequest_eq cong: sum.case_cong option.case_cong if_cong)

lemma bodyBytes_drained [simp]: "bodyBytes (drained req) = []"
  by (cases "Body req") (simp_all add: bodyBytes_def drained_def)

lemma drained_drained [simp]: "drained (drained req) = drained req"
  by (cases "Body req") (simp_all add: drained_def)

lemma drained_fields [simp]:
  "Method (drained req) = Method req" "URL (drained req) = URL req"
  "Header (drained req) = Header req"
  by (simp_all add: drained_def)

lemma status_error_eq:
  "status_error (Method req) (URL req) b resp =
     (if StatusCode resp \<in> {401, 403} then
        ErrorString (''bad status code: '' @ sanitizedDebuggingInfo req b resp)
      else if StatusCode resp = 404 then ErrNotFound (sanitizedDebuggingInfo req b resp)
      else ErrorString (''unexpected status code: '' @ sanitizedDebuggingInfo req b resp))"
  by (simp add: status_error_def sanitizedDebuggingInfo_eq)


lemma attemptRequest_retry_cases:
  assumes "attemptRequest env client st req obj = (True, err, st', req', obj')"
  shows "\<exists>resp. received env client st req = Inr resp
           \<and> StatusCode resp \<in> {401, 403, 500, 502, 503, 504}
           \<and> err = Some (status_error (Method req) (URL req) (bodyBytes req) resp)"
proof (cases "received env client st req")
  case (Inl e)
  with assms show ?thesis unfolding attemptRequest_eq Let_def by simp
next
  case (Inr resp)
  note ar = attemptRequest_eq [of env client st req obj, unfolded Let_def]
  consider (ok) "StatusCode resp \<in> {200, 201, 202, 204}"
    | (auth) "StatusCode resp \<in> {401, 403}"
    | (nf) "StatusCode resp = 404"
    | (five) "StatusCode resp \<in> {500, 502, 503, 504}"
    | (other) "StatusCode resp \<notin> {200, 201, 202, 204}" "StatusCode resp \<notin> {401, 403}"
        "StatusCode resp \<noteq> 404" "StatusCode resp \<notin> {500, 502, 503, 504}"
    by blast
  then have "StatusCode resp \<in> {401, 403, 500, 502, 503, 504}
      \<and> err = Some (status_error (Method req) (URL req) (bodyBytes req) resp)"
  proof cases
    case ok
    with assms Inr show ?thesis unfolding ar by (cases obj) auto
  next
    case auth
    with assms Inr show ?thesis unfolding ar status_error_eq
      by (cases "inClusterConfig env (reloads st)") (auto split: if_splits)
  next
    case nf
    with assms Inr show ?thesis unfolding ar by auto
  next
    case five
    with assms Inr show ?thesis unfolding ar status_error_eq by auto
  next
    case other
    with assms Inr show ?thesis unfolding ar by auto
  qed
  with Inr show ?thesis by blast
qed

lemma attemptRequest_reloads:
  assumes "attemptRequest env client st req obj = (r, err, st', req', obj')"
  shows "reloads st \<le> reloads st'"
  using assms unfolding attemptRequest_eq Let_def
  by (auto split: sum.splits option.splits if_splits)

lemma do_request_fields [simp]:
  "Method (do_request st req) = Method req" "URL (do_request st req) = URL req"
  "Body (do_request st req) = Body req" "bodyBytes (do_request st req) = bodyBytes req"
  by (simp_all add: do_request_def bodyBytes_def)

subsection \<open>The loop as a whole\<close>

text \<open>The trace only grows, one call per attempt, and by at most what the loop has left.\<close>

lemma do_loop_extends:
  "\<exists>xs ys. attempts (fst (snd (do_loop env client i lastErr st req obj))) = attempts st @ xs
        \<and> calls (fst (snd (do_loop env client i lastErr st req obj))) = calls st @ ys
        \<and> length xs = length ys \<and> length xs \<le> maxRetries - i"
proof (induct "maxRetries - i" arbitrary: i lastErr st req obj)
  case 0
  then show ?case by (simp add: do_loop_done)
next
  case (Suc n)
  then have i: "i < maxRetries" and n: "n = maxRetries - Suc i" by simp_all
  show ?case
  proof (cases "i \<noteq> 0 \<and> stopFirst env i")
    case True
    then show ?thesis using i by (simp add: do_loop_stop)
  next
    case False
    then have ns: "i = 0 \<or> \<not> stopFirst env i" by blast
    obtain r err st' req' obj' where
      a: "attemptRequest env client (log_select i st) req obj = (r, err, st', req', obj')"
      by (rule attempt_cases)
    note t = attemptRequest_trace [OF a]
    show ?thesis
    proof (cases r)
      case False
      with a have "do_loop env client i lastErr st req obj = (err, log_attempt False err st', req', obj')"
        using do_loop_terminal [OF i ns] by simp
      then show ?thesis using t i by simp
    next
      case True
      with a have eq: "do_loop env client i lastErr st req obj
          = do_loop env client (Suc i) err (log_attempt True err st') req' obj'"
        using do_loop_retry [OF i ns] by simp
      from Suc.hyps(1) [OF n, of err "log_attempt True err st'" req' obj']
      obtain xs ys where
        "attempts (fst (snd (do_loop env client (Suc i) err (log_attempt True err st') req' obj')))
           = attempts (log_attempt True err st') @ xs"
        "calls (fst (snd (do_loop env client (Suc i) err (log_attempt True err st') req' obj')))
           = calls (log_attempt True err st') @ ys"
        "length xs = length ys" "length xs \<le> maxRetries - Suc i"
        by blast
      then show ?thesis unfolding eq using t i
        by (intro exI [of _ "(True, err) # xs"] exI [of _ "wire_of env client st req # ys"]) simp
    qed
  qed
qed

lemma do_loop_all_retryable:
  assumes "\<forall>j. 0 < j \<and> j < maxRetries \<longrightarrow> \<not> stopFirst env j"
    and "\<forall>a \<in> set (drop (length (attempts st)) (attempts (fst (snd (do_loop env client i lastErr st req obj))))). fst a"
  shows "length (attempts (fst (snd (do_loop env client i lastErr st req obj)))) = length (attempts st) + (maxRetries - i)
       \<and> length (calls (fst (snd (do_loop env client i lastErr st req obj)))) = length (calls st) + (maxRetries - i)
       \<and> fst (do_loop env client i lastErr st req obj)
           = (if i < maxRetries then snd (last (attempts (fst (snd (do_loop env client i lastErr st req obj))))) else lastErr)
       \<and> (i < maxRetries \<longrightarrow> fst (do_loop env client i lastErr st req obj) \<noteq> None)"
  using assms(2)
proof (induct "maxRetries - i" arbitrary: i lastErr st req obj)
  case 0
  then have "\<not> i < maxRetries" by simp
  then show ?case by (simp add: do_loop_done)
next
  case (Suc n)
  from Suc.hyps(2) have i: "i < maxRetries" and n: "n = maxRetries - Suc i" by simp_all
  have ns: "i = 0 \<or> \<not> stopFirst env i" using assms(1) i by auto
  obtain r err st' req' obj' where
    a: "attemptRequest env client (log_select i st) req obj = (r, err, st', req', obj')"
    by (rule attempt_cases)
  note t = attemptRequest_trace [OF a]
  have r: r
  proof (rule ccontr)
    assume "\<not> r"
    with a have "do_loop env client i lastErr st req obj = (err, log_attempt False err st', req', obj')"
      using do_loop_terminal [OF i ns] by simp
    with Suc.prems t show False by simp
  qed
  from a r have "attemptRequest env client (log_select i st) req obj = (True, err, st', req', obj')"
    by simp
  then have err: "err \<noteq> None" by (rule attemptRequest_retry_error)
  let ?st1 = "log_attempt True err st'"
  let ?res = "do_loop env client (Suc i) err ?st1 req' obj'"
  have eq: "do_loop env client i lastErr st req obj = ?res"
    using do_loop_retry [OF i ns] a r by simp
  obtain xs where xs: "attempts (fst (snd ?res)) = attempts ?st1 @ xs"
    using do_loop_extends [of env client "Suc i" err ?st1 req' obj'] by blast
  have "\<forall>a \<in> set (drop (length (attempts ?st1)) (attempts (fst (snd ?res)))). fst a"
    using Suc.prems unfolding eq xs using t by simp
  note ih = Suc.hyps(1) [OF n this]
  have last: "fst ?res = snd (last (attempts (fst (snd ?res))))" and some: "fst ?res \<noteq> None"
  proof -
    show "fst ?res = snd (last (attempts (fst (snd ?res))))"
    proof (cases "Suc i < maxRetries")
      case True
      then show ?thesis using ih by simp
    next
      case False
      then have "?res = (err, ?st1, req', obj')" by (simp add: do_loop_done)
      then show ?thesis by simp
    qed
    show "fst ?res \<noteq> None"
    proof (cases "Suc i < maxRetries")
      case True
      then show ?thesis using ih by blast
    next
      case False
      then have "?res = (err, ?st1, req', obj')" by (simp add: do_loop_done)
      then show ?thesis using err by (simp del: not_None_eq)
    qed
  qed
  show ?case unfolding eq using ih t i last some by (simp del: not_None_eq, arith)
qed

lemma do_loop_5xx:
  assumes "\<forall>k w. \<exists>resp. net env k w = Inr resp \<and> StatusCode resp \<in> {500, 502, 503, 504}"
    and "\<forall>j. 0 < j \<and> j < maxRetries \<longrightarrow> \<not> stopFirst env j"
    and "Body req = None"
  shows "\<forall>a \<in> set (drop (length (attempts st)) (attempts (fst (snd (do_loop env client i lastErr st req obj))))). fst a"
  using assms(3)
proof (induct "maxRetries - i" arbitrary: i lastErr st req obj)
  case 0
  then have "\<not> i < maxRetries" by simp
  then show ?case by (simp add: do_loop_done)
next
  case (Suc n)
  from Suc.hyps(2) have i: "i < maxRetries" and n: "n = maxRetries - Suc i" by simp_all
  have ns: "i = 0 \<or> \<not> stopFirst env i" using assms(2) i by auto
  obtain r err st' req' obj' where
    a: "attemptRequest env client (log_select i st) req obj = (r, err, st', req', obj')"
    by (rule attempt_cases)
  note t = attemptRequest_trace [OF a]
  have b: "Body req' = None" using t(2) Suc.prems by (simp add: drained_def)
  obtain resp where "received env client (log_select i st) req = Inr resp"
      "StatusCode resp \<in> {500, 502, 503, 504}"
    using assms(1) Suc.prems unfolding received_nil_body [OF Suc.prems] by blast
  from attemptRequest_5xx [OF this, where obj = obj] a have r: r by simp
  let ?st1 = "log_attempt True err st'"
  let ?res = "do_loop env client (Suc i) err ?st1 req' obj'"
  have eq: "do_loop env client i lastErr st req obj = ?res"
    using do_loop_retry [OF i ns] a r by simp
  obtain xs where xs: "attempts (fst (snd ?res)) = attempts ?st1 @ xs"
    using do_loop_extends [of env client "Suc i" err ?st1 req' obj'] by blast
  from Suc.hyps(1) [OF n b, where lastErr = err and st = ?st1 and obj = obj']
  show ?case unfolding eq xs using t by simp
qed

lemma do_loop_stopFirst_cong:
  assumes "\<forall>j. 0 < j \<and> j < maxRetries \<longrightarrow> f j = stopFirst env j"
  shows "do_loop (env\<lparr>stopFirst := f\<rparr>) client i lastErr st req obj
           = do_loop env client i lastErr st req obj"
proof (induct "maxRetries - i" arbitrary: i lastErr st req obj)
  case 0
  then have "\<not> i < maxRetries" by simp
  then show ?case by (simp add: do_loop_done)
next
  case (Suc n)
  from Suc.hyps(2) have i: "i < maxRetries" and n: "n = maxRetries - Suc i" by simp_all
  have f: "i \<noteq> 0 \<Longrightarrow> f i = stopFirst env i" using assms i by simp
  let ?env = "env\<lparr>stopFirst := f\<rparr>"
  show ?case
  proof (cases "i \<noteq> 0 \<and> stopFirst env i")
    case True
    then have "i \<noteq> 0" "stopFirst env i" "stopFirst ?env i" using f by simp_all
    then show ?thesis using i by (simp add: do_loop_stop)
  next
    case False
    then have ns: "i = 0 \<or> \<not> stopFirst env i" by blast
    then have ns': "i = 0 \<or> \<not> stopFirst ?env i" using f by auto
    obtain r err st' req' obj' where
      a: "attemptRequest env client (log_select i st) req obj = (r, err, st', req', obj')"
      by (rule attempt_cases)
    then have a': "attemptRequest ?env client (log_select i st) req obj = (r, err, st', req', obj')"
      by simp
    show ?thesis
    proof (cases r)
      case False
      then show ?thesis
        using do_loop_terminal [OF i ns, of client st req obj err st' req' obj' lastErr]
          do_loop_terminal [OF i ns', of client st req obj err st' req' obj' lastErr] a a'
        by simp
    next
      case True
      then show ?thesis
        using do_loop_retry [OF i ns, of client st req obj err st' req' obj' lastErr]
          do_loop_retry [OF i ns', of client st req obj err st' req' obj' lastErr] a a'
          Suc.hyps(1) [OF n]
        by simp
    qed
  qed
qed

lemma do_loop_selects:
  "\<exists>zs. selects (fst (snd (do_loop env client i lastErr st req obj))) = selects st @ zs
        \<and> set zs \<subseteq> {j. 0 < j \<and> j < maxRetries}"
proof (induct "maxRetries - i" arbitrary: i lastErr st req obj)
  case 0
  then have "\<not> i < maxRetries" by simp
  then show ?case by (simp add: do_loop_done)
next
  case (Suc n)
  from Suc.hyps(2) have i: "i < maxRetries" and n: "n = maxRetries - Suc i" by simp_all
  show ?case
  proof (cases "i \<noteq> 0 \<and> stopFirst env i")
    case True
    then show ?thesis using i by (simp add: do_loop_stop)
  next
    case False
    then have ns: "i = 0 \<or> \<not> stopFirst env i" by blast
    obtain r err st' req' obj' where
      a: "attemptRequest env client (log_select i st) req obj = (r, err, st', req', obj')"
      by (rule attempt_cases)
    note t = attemptRequest_trace [OF a]
    have s: "\<exists>zs. selects st' = selects st @ zs \<and> set zs \<subseteq> {j. 0 < j \<and> j < maxRetries}"
      using t(3) i by (cases "i = 0") (simp_all add: log_select_def)
    show ?thesis
    proof (cases r)
      case False
      with a have "do_loop env client i lastErr st req obj = (err, log_attempt False err st', req', obj')"
        using do_loop_terminal [OF i ns] by simp
      then show ?thesis using s by simp
    next
      case True
      with a have eq: "do_loop env client i lastErr st req obj
          = do_loop env client (Suc i) err (log_attempt True err st') req' obj'"
        using do_loop_retry [OF i ns] by simp
      from s obtain zs where zs: "selects st' = selects st @ zs" "set zs \<subseteq> {j. 0 < j \<and> j < maxRetries}"
        by blast
      from Suc.hyps(1) [OF n, of err "log_attempt True err st'" req' obj']
      obtain zs' where
        "selects (fst (snd (do_loop env client (Suc i) err (log_attempt True err st') req' obj')))
           = selects (log_attempt True err st') @ zs'"
        "set zs' \<subseteq> {j. 0 < j \<and> j < maxRetries}"
        by blast
      then show ?thesis unfolding eq using zs
        by (intro exI [of _ "zs @ zs'"]) simp
    qed
  qed
qed

lemma do_loop_first_call:
  "\<exists>ws. calls (fst (snd (do_loop env client 0 lastErr st req obj))) = calls st @ wire_of env client st req # ws"
proof -
  have i: "0 < maxRetries" by (simp add: maxRetries_def)
  obtain r err st' req' obj' where
    a: "attemptRequest env client (log_select 0 st) req obj = (r, err, st', req', obj')"
    by (rule attempt_cases)
  note t = attemptRequest_trace [OF a]
  show ?thesis
  proof (cases r)
    case False
    with a have "do_loop env client 0 lastErr st req obj = (err, log_attempt False err st', req', obj')"
      using do_loop_terminal [OF i] by simp
    then show ?thesis using t by simp
  next
    case True
    with a have eq: "do_loop env client 0 lastErr st req obj
        = do_loop env client (Suc 0) err (log_attempt True err st') req' obj'"
      using do_loop_retry [OF i] by simp
    from do_loop_extends [of env client "Suc 0" err "log_attempt True err st'" req' obj']
    show ?thesis unfolding eq using t by auto
  qed
qed

lemma do_loop_stopped_at_once:
  assumes "\<forall>j. 0 < j \<longrightarrow> stopFirst env j"
  shows "calls (fst (snd (do_loop env client 0 lastErr st req obj))) = calls st @ [wire_of env client st req]"
proof -
  have i: "0 < maxRetries" "Suc 0 < maxRetries" by (simp_all add: maxRetries_def)
  obtain r err st' req' obj' where
    a: "attemptRequest env client (log_select 0 st) req obj = (r, err, st', req', obj')"
    by (rule attempt_cases)
  note t = attemptRequest_trace [OF a]
  show ?thesis
  proof (cases r)
    case False
    with a have "do_loop env client 0 lastErr st req obj = (err, log_attempt False err st', req', obj')"
      using do_loop_terminal [OF i(1)] by simp
    then show ?thesis using t by simp
  next
    case True
    with a have eq: "do_loop env client 0 lastErr st req obj
        = do_loop env client (Suc 0) err (log_attempt True err st') req' obj'"
      using do_loop_retry [OF i(1)] by simp
    show ?thesis unfolding eq using t assms i(2) by (simp add: do_loop_stop)
  qed
qed

text \<open>
  An error that the loop returns is the error of its last attempt: the one that was not
  to be retried, or the one at the last index.
\<close>

lemma do_loop_last_attempt:
  assumes "fst (do_loop env client i lastErr st req obj) = Some e" and "i < maxRetries"
  shows "\<exists>st\<^sub>l obj\<^sub>l r st\<^sub>a req\<^sub>a obj\<^sub>a ws.
      attemptRequest env client st\<^sub>l (if ws = [] then req else drained req) obj\<^sub>l
        = (r, Some e, st\<^sub>a, req\<^sub>a, obj\<^sub>a)
      \<and> fst (snd (do_loop env client i lastErr st req obj)) = log_attempt r (Some e) st\<^sub>a
      \<and> calls st\<^sub>l = calls st @ ws \<and> reloads st \<le> reloads st\<^sub>l
      \<and> length (attempts st) \<le> length (attempts st\<^sub>l)"
  using assms
proof (induct "maxRetries - i" arbitrary: i lastErr st req obj)
  case 0
  then show ?case by simp
next
  case (Suc n)
  note i = Suc.prems(2)
  from Suc.hyps(2) have n: "n = maxRetries - Suc i" by simp
  show ?case
  proof (cases "i \<noteq> 0 \<and> stopFirst env i")
    case True
    then show ?thesis using i Suc.prems(1) by (simp add: do_loop_stop)
  next
    case False
    then have ns: "i = 0 \<or> \<not> stopFirst env i" by blast
    obtain r err st' req' obj' where
      a: "attemptRequest env client (log_select i st) req obj = (r, err, st', req', obj')"
      by (rule attempt_cases)
    note t = attemptRequest_trace [OF a]
    have here: ?thesis
      if res: "do_loop env client i lastErr st req obj = (err, log_attempt r err st', req', obj')"
    proof -
      from res Suc.prems(1) have e: "err = Some e" by simp
      show ?thesis
        apply (rule exI [of _ "log_select i st"], rule exI [of _ obj], rule exI [of _ r],
            rule exI [of _ st'], rule exI [of _ req'], rule exI [of _ obj'], rule exI [of _ "[]"])
        using a e res by simp
    qed
    show ?thesis
    proof (cases r)
      case False
      with a have "do_loop env client i lastErr st req obj = (err, log_attempt r err st', req', obj')"
        using do_loop_terminal [OF i ns] by simp
      then show ?thesis by (rule here)
    next
      case True
      let ?st1 = "log_attempt True err st'"
      let ?res = "do_loop env client (Suc i) err ?st1 req' obj'"
      from True a have eq: "do_loop env client i lastErr st req obj = ?res"
        using do_loop_retry [OF i ns] by simp
      show ?thesis
      proof (cases "Suc i < maxRetries")
        case False
        then have "?res = (err, ?st1, req', obj')" by (simp add: do_loop_done)
        with eq True show ?thesis by (intro here) simp
      next
        case lt: True
        have "fst ?res = Some e" using Suc.prems(1) eq by simp
        from Suc.hyps(1) [OF n this lt]
        obtain st\<^sub>l obj\<^sub>l r' st\<^sub>a req\<^sub>a obj\<^sub>a ws where
          l: "attemptRequest env client st\<^sub>l (if ws = [] then req' else drained req') obj\<^sub>l
                = (r', Some e, st\<^sub>a, req\<^sub>a, obj\<^sub>a)"
            "fst (snd ?res) = log_attempt r' (Some e) st\<^sub>a"
            "calls st\<^sub>l = calls ?st1 @ ws" "reloads ?st1 \<le> reloads st\<^sub>l"
            "length (attempts ?st1) \<le> length (attempts st\<^sub>l)"
          by blast
        have rq: "(if ws = [] then req' else drained req') = drained req"
          using t(2) by simp
        have rl: "reloads st \<le> reloads st'" using attemptRequest_reloads [OF a] by simp
        show ?thesis unfolding eq
          apply (rule exI [of _ st\<^sub>l], rule exI [of _ obj\<^sub>l], rule exI [of _ r'],
            rule exI [of _ st\<^sub>a], rule exI [of _ req\<^sub>a], rule exI [of _ obj\<^sub>a],
            rule exI [of _ "wire_of env client st req # ws"])
          using l rq rl t by simp
      qed
    qed
  qed
qed

text \<open>
  When every attempt is retried, every call is answered by a response with a status that
  asks for a retry, and carries the request the loop was entered with.
\<close>

lemma do_loop_all_retryable_calls:
  assumes "\<forall>j. 0 < j \<and> j < maxRetries \<longrightarrow> \<not> stopFirst env j"
    and "\<forall>a \<in> set (drop (length (attempts st)) (attempts (fst (snd (do_loop env client i lastErr st req obj))))). fst a"
  shows "\<forall>k. k < maxRetries - i \<longrightarrow>
      (\<exists>resp. answer env (length (calls st) + k)
                 (calls (fst (snd (do_loop env client i lastErr st req obj))) ! (length (calls st) + k))
               = Inr resp
             \<and> StatusCode resp \<in> {401, 403, 500, 502, 503, 504})
      \<and> wMethod (calls (fst (snd (do_loop env client i lastErr st req obj))) ! (length (calls st) + k)) = Method req
      \<and> wURL (calls (fst (snd (do_loop env client i lastErr st req obj))) ! (length (calls st) + k)) = URL req
      \<and> wHeader (calls (fst (snd (do_loop env client i lastErr st req obj))) ! (length (calls st) + k)) = Header req
      \<and> wRootCAs (calls (fst (snd (do_loop env client i lastErr st req obj))) ! (length (calls st) + k)) = RootCAs client"
  using assms(2)
proof (induct "maxRetries - i" arbitrary: i lastErr st req obj)
  case 0
  then show ?case by simp
next
  case (Suc n)
  from Suc.hyps(2) have i: "i < maxRetries" and n: "n = maxRetries - Suc i" by simp_all
  have ns: "i = 0 \<or> \<not> stopFirst env i" using assms(1) i by auto
  obtain r err st' req' obj' where
    a: "attemptRequest env client (log_select i st) req obj = (r, err, st', req', obj')"
    by (rule attempt_cases)
  note t = attemptRequest_trace [OF a]
  have r: r
  proof (rule ccontr)
    assume "\<not> r"
    with a have "do_loop env client i lastErr st req obj = (err, log_attempt False err st', req', obj')"
      using do_loop_terminal [OF i ns] by simp
    with Suc.prems t show False by simp
  qed
  let ?st1 = "log_attempt True err st'"
  let ?res = "do_loop env client (Suc i) err ?st1 req' obj'"
  let ?w = "wire_of env client st req"
  have eq: "do_loop env client i lastErr st req obj = ?res"
    using do_loop_retry [OF i ns] a r by simp
  obtain xs ys where xs: "attempts (fst (snd ?res)) = attempts ?st1 @ xs"
      and ys: "calls (fst (snd ?res)) = calls ?st1 @ ys"
    using do_loop_extends [of env client "Suc i" err ?st1 req' obj'] by blast
  have c1: "calls ?st1 = calls st @ [?w]" using t by simp
  have "\<forall>a \<in> set (drop (length (attempts ?st1)) (attempts (fst (snd ?res)))). fst a"
    using Suc.prems unfolding eq xs using t by simp
  note ih = Suc.hyps(1) [OF n this, rule_format]
  from a r obtain resp where
    resp: "received env client st req = Inr resp" "StatusCode resp \<in> {401, 403, 500, 502, 503, 504}"
    using attemptRequest_retry_cases [of env client "log_select i st" req obj err st' req' obj']
    by auto
  have w0: "calls (fst (snd ?res)) ! length (calls st) = ?w"
    unfolding ys c1 by (simp add: nth_append)
  have f: "wMethod ?w = Method req" "wURL ?w = URL req" "wHeader ?w = Header req"
      "wRootCAs ?w = RootCAs client"
    by (simp_all add: wire_of_def)
  show ?case unfolding eq
  proof (intro allI impI)
    fix k assume k: "k < maxRetries - i"
    show "(\<exists>resp. answer env (length (calls st) + k) (calls (fst (snd ?res)) ! (length (calls st) + k)) = Inr resp
             \<and> StatusCode resp \<in> {401, 403, 500, 502, 503, 504})
      \<and> wMethod (calls (fst (snd ?res)) ! (length (calls st) + k)) = Method req
      \<and> wURL (calls (fst (snd ?res)) ! (length (calls st) + k)) = URL req
      \<and> wHeader (calls (fst (snd ?res)) ! (length (calls st) + k)) = Header req
      \<and> wRootCAs (calls (fst (snd ?res)) ! (length (calls st) + k)) = RootCAs client"
    proof (cases k)
      case 0
      then show ?thesis using w0 f resp by (simp add: received_def)
    next
      case (Suc k')
      then have "k' < maxRetries - Suc i" using k by simp
      from ih [OF this] show ?thesis
        unfolding Suc using t(2) c1 by simp
    qed
  qed
qed

text \<open>
  Every call of one run of the loop carries the method, the URL and the headers of the
  request the loop was entered with, and the client's certificate pool.
\<close>

lemma do_loop_calls_shape:
  "\<exists>ws. calls (fst (snd (do_loop env client i lastErr st req obj))) = calls st @ ws
      \<and> (\<forall>w \<in> set ws. wMethod w = Method req \<and> wURL w = URL req \<and> wHeader w = Header req
            \<and> wRootCAs w = RootCAs client)"
proof (induct "maxRetries - i" arbitrary: i lastErr st req obj)
  case 0
  then have "\<not> i < maxRetries" by simp
  then show ?case by (simp add: do_loop_done)
next
  case (Suc n)
  from Suc.hyps(2) have i: "i < maxRetries" and n: "n = maxRetries - Suc i" by simp_all
  show ?case
  proof (cases "i \<noteq> 0 \<and> stopFirst env i")
    case True
    then show ?thesis using i by (simp add: do_loop_stop)
  next
    case False
    then have ns: "i = 0 \<or> \<not> stopFirst env i" by blast
    obtain r err st' req' obj' where
      a: "attemptRequest env client (log_select i st) req obj = (r, err, st', req', obj')"
      by (rule attempt_cases)
    note t = attemptRequest_trace [OF a]
    have f: "wMethod (wire_of env client st req) = Method req"
        "wURL (wire_of env client st req) = URL req"
        "wHeader (wire_of env client st req) = Header req"
        "wRootCAs (wire_of env client st req) = RootCAs client"
      by (simp_all add: wire_of_def)
    show ?thesis
    proof (cases r)
      case False
      with a have "do_loop env client i lastErr st req obj = (err, log_attempt False err st', req', obj')"
        using do_loop_terminal [OF i ns] by simp
      then show ?thesis using t f by simp
    next
      case True
      with a have eq: "do_loop env client i lastErr st req obj
          = do_loop env client (Suc i) err (log_attempt True err st') req' obj'"
        using do_loop_retry [OF i ns] by simp
      from Suc.hyps(1) [OF n, of err "log_attempt True err st'" req' obj']
      obtain ws where
        "calls (fst (snd (do_loop env client (Suc i) err (log_attempt True err st') req' obj')))
           = calls (log_attempt True err st') @ ws"
        "\<forall>w \<in> set ws. wMethod w = Method req' \<and> wURL w = URL req' \<and> wHeader w = Header req'
            \<and> wRootCAs w = RootCAs client"
        by blast
      then show ?thesis unfolding eq using t f
        by (intro exI [of _ "wire_of env client st req # ws"]) simp
    qed
  qed
qed

text \<open>A wait that the stop channel ends is the last event of the run.\<close>

lemma do_loop_stop_taken:
  assumes "i \<in> set (drop (length (selects st))
              (selects (fst (snd (do_loop env client j lastErr st req obj)))))"
    and "stopFirst env i"
  shows "fst (do_loop env client j lastErr st req obj) = None \<and> j \<le> i
       \<and> length (calls (fst (snd (do_loop env client j lastErr st req obj)))) = length (calls st) + (i - j)
       \<and> last (selects (fst (snd (do_loop env client j lastErr st req obj)))) = i"
  using assms(1)
proof (induct "maxRetries - j" arbitrary: j lastErr st req obj)
  case 0
  then have "\<not> j < maxRetries" by simp
  with "0.prems" show ?case by (simp add: do_loop_done)
next
  case (Suc n)
  from Suc.hyps(2) have j: "j < maxRetries" and n: "n = maxRetries - Suc j" by simp_all
  show ?case
  proof (cases "j \<noteq> 0 \<and> stopFirst env j")
    case True
    then show ?thesis using j Suc.prems by (simp add: do_loop_stop)
  next
    case False
    then have ns: "j = 0 \<or> \<not> stopFirst env j" by blast
    obtain r err st' req' obj' where
      a: "attemptRequest env client (log_select j st) req obj = (r, err, st', req', obj')"
      by (rule attempt_cases)
    note t = attemptRequest_trace [OF a]
    have s: "selects st' = selects st @ (if j \<noteq> 0 then [j] else [])"
      using t(3) by (simp add: log_select_def)
    have ij: "i \<noteq> j \<or> j = 0" using ns assms(2) by auto
    show ?thesis
    proof (cases r)
      case False
      with a have "do_loop env client j lastErr st req obj = (err, log_attempt False err st', req', obj')"
        using do_loop_terminal [OF j ns] by simp
      with Suc.prems s ij show ?thesis by (auto split: if_splits)
    next
      case True
      let ?st1 = "log_attempt True err st'"
      let ?res = "do_loop env client (Suc j) err ?st1 req' obj'"
      from True a have eq: "do_loop env client j lastErr st req obj = ?res"
        using do_loop_retry [OF j ns] by simp
      obtain zs where zs: "selects (fst (snd ?res)) = selects ?st1 @ zs"
        using do_loop_selects [of env client "Suc j" err ?st1 req' obj'] by blast
      have "i \<in> set (drop (length (selects ?st1)) (selects (fst (snd ?res))))"
        using Suc.prems s ij unfolding eq zs by (auto split: if_splits)
      from Suc.hyps(1) [OF n this] show ?thesis unfolding eq using t by auto
    qed
  qed
qed

lemma run_stop:
  "selects (fst (snd (do env_stop st0 req_get None))) = [1]"
  by (simp add: env_stop_def eval_rules itoa_samples)



text \<open>The loop unrolled at the remaining indices, for runs of ten attempts.\<close>

lemmas unroll =
  do_loop.simps [of _ _ "Suc (Suc 0)"] do_loop.simps [of _ _ "Suc (Suc (Suc 0))"]
  do_loop.simps [of _ _ "Suc (Suc (Suc (Suc 0)))"] do_loop.simps [of _ _ "Suc (Suc (Suc (Suc (Suc 0))))"]
  do_loop.simps [of _ _ "Suc (Suc (Suc (Suc (Suc (Suc 0)))))"]
  do_loop.simps [of _ _ "Suc (Suc (Suc (Suc (Suc (Suc (Suc 0))))))"]
  do_loop.simps [of _ _ "Suc (Suc (Suc (Suc (Suc (Suc (Suc (Suc 0)))))))"]
  do_loop.simps [of _ _ "Suc (Suc (Suc (Suc (Suc (Suc (Suc (Suc (Suc 0))))))))"]
  do_loop.simps [of _ _ "Suc (Suc (Suc (Suc (Suc (Suc (Suc (Suc (Suc (Suc 0)))))))))"]

section \<open>The claims\<close>

text \<open>
  C1. The claim: after a 401 and a refresh that yields a different token, the second
  call carries the refreshed bearer token. The code sets the \<^verbatim>\<open>Authorization\<close>
  header once, before the loop, and the refresh only replaces \<^verbatim>\<open>c.config\<close>: on the
  sample run below (401, then a new token from the loader, then 200) two calls are made,
  the call succeeds and the client holds the new token, but both calls carry the old one.
  By \<open>do_loop_calls_shape\<close> this is so on every run.
\<close>

theorem refreshed_token_is_not_sent:
  "fst (GetPod env_refresh st0 ''default'' ''vault-0'')
     = Inr \<lparr>Metadata = Some \<lparr>Name = ''vault-0'', Labels = None\<rparr>\<rparr>
   \<and> BearerToken (config (snd (GetPod env_refresh st0 ''default'' ''vault-0''))) = ''new''
   \<and> map (\<lambda>w. Header_Get ''Authorization'' (wHeader w))
        (calls (snd (GetPod env_refresh st0 ''default'' ''vault-0'')))
       = [''Bearer old'', ''Bearer old'']"
  by (simp add: GetPod_def env_refresh_def eval_rules itoa_samples)

text \<open>
  C2. The claim: every attempt sends the same bytes as the first, and the buffered copy
  for diagnostics holds them too. The body that \<^verbatim>\<open>attemptRequest\<close> puts back is a
  reader that the transport reads to its end, so from the second attempt on
  \<^verbatim>\<open>ioutil.ReadAll\<close> finds nothing: the buffered copy is empty and an empty reader
  is put back. On the first sample run below (a patch against a server that answers 503
  and keeps the connection alive) the transport rewinds from \<open>GetBody\<close>, so all ten
  calls carry the body, but only the first attempt's error text shows it: the error
  returned shows an empty request body. On the second (the server closes the connection
  after each answer) the second call cannot be written and the call ends with the
  transport's error.
\<close>

theorem diagnostic_copy_is_lost_on_replay:
  \<open>map wBody (calls (snd (PatchPod env_keepalive_503 st0 ''default'' ''vault-0'' [patch0])))
     = [''add/metadata/labels/x'', ''add/metadata/labels/x'', ''add/metadata/labels/x'',
        ''add/metadata/labels/x'', ''add/metadata/labels/x'', ''add/metadata/labels/x'',
        ''add/metadata/labels/x'', ''add/metadata/labels/x'', ''add/metadata/labels/x'',
        ''add/metadata/labels/x'']
   \<and> hd (attempts (snd (PatchPod env_keepalive_503 st0 ''default'' ''vault-0'' [patch0])))
     = (True, Some (ErrorString ''unexpected status code: req method: PATCH, req url: https://k8s/api/v1/namespaces/default/pods/vault-0, req body: add/metadata/labels/x, resp statuscode: 503, resp respBody: busy''))
   \<and> fst (PatchPod env_keepalive_503 st0 ''default'' ''vault-0'' [patch0])
     = Some (ErrorString ''unexpected status code: req method: PATCH, req url: https://k8s/api/v1/namespaces/default/pods/vault-0, req body: , resp statuscode: 503, resp respBody: busy'')
   \<and> map wBody (calls (snd (PatchPod env_close_503 st0 ''default'' ''vault-0'' [patch0])))
     = [''add/metadata/labels/x'', []]
   \<and> map wWritten (calls (snd (PatchPod env_close_503 st0 ''default'' ''vault-0'' [patch0])))
     = [True, False]
   \<and> fst (PatchPod env_close_503 st0 ''default'' ''vault-0'' [patch0])
     = Some (External ''Patch "https://k8s/api/v1/namespaces/default/pods/vault-0": http: ContentLength=21 with Body length 0'')\<close>
proof (intro conjI)
  show "map wBody (calls (snd (PatchPod env_keepalive_503 st0 ''default'' ''vault-0'' [patch0])))
     = [''add/metadata/labels/x'', ''add/metadata/labels/x'', ''add/metadata/labels/x'',
        ''add/metadata/labels/x'', ''add/metadata/labels/x'', ''add/metadata/labels/x'',
        ''add/metadata/labels/x'', ''add/metadata/labels/x'', ''add/metadata/labels/x'',
        ''add/metadata/labels/x'']"
    by (simp add: PatchPod_def env_keepalive_503_def eval_rules unroll patch0_def itoa_samples)
  show "hd (attempts (snd (PatchPod env_keepalive_503 st0 ''default'' ''vault-0'' [patch0])))
     = (True, Some (ErrorString ''unexpected status code: req method: PATCH, req url: https://k8s/api/v1/namespaces/default/pods/vault-0, req body: add/metadata/labels/x, resp statuscode: 503, resp respBody: busy''))"
    by (simp add: PatchPod_def env_keepalive_503_def eval_rules unroll patch0_def itoa_samples)
  show "fst (PatchPod env_keepalive_503 st0 ''default'' ''vault-0'' [patch0])
     = Some (ErrorString ''unexpected status code: req method: PATCH, req url: https://k8s/api/v1/namespaces/default/pods/vault-0, req body: , resp statuscode: 503, resp respBody: busy'')"
    by (simp add: PatchPod_def env_keepalive_503_def eval_rules unroll patch0_def itoa_samples)
  show "map wBody (calls (snd (PatchPod env_close_503 st0 ''default'' ''vault-0'' [patch0])))
     = [''add/metadata/labels/x'', []]"
    by (simp add: PatchPod_def env_close_503_def eval_rules patch0_def itoa_samples)
  show "map wWritten (calls (snd (PatchPod env_close_503 st0 ''default'' ''vault-0'' [patch0])))
     = [True, False]"
    by (simp add: PatchPod_def env_close_503_def eval_rules patch0_def itoa_samples)
  show \<open>fst (PatchPod env_close_503 st0 ''default'' ''vault-0'' [patch0])
     = Some (External ''Patch "https://k8s/api/v1/namespaces/default/pods/vault-0": http: ContentLength=21 with Body length 0'')\<close>
    by (simp add: PatchPod_def env_close_503_def eval_rules patch0_def itoa_samples)
qed

text \<open>
  C3. In every run of \<^verbatim>\<open>do\<close> in which no wait is ended by the stop channel and
  every attempt made is classified retryable, exactly ten attempts and ten network calls
  are made. Each of the ten calls carries the method, the URL and the headers of the
  request as \<^verbatim>\<open>do\<close> set it up and is answered by a response whose status asks
  for a retry; the error returned is the one of the last attempt, which is the error
  formatted from the answer to the tenth call (with an empty buffered request body).
\<close>

theorem retry_budget_is_ten_attempts:
  assumes "\<forall>j. 0 < j \<and> j < maxRetries \<longrightarrow> \<not> stopFirst env j"
    and "\<forall>a \<in> set (drop (length (attempts st)) (attempts (fst (snd (do env st req obj))))). fst a"
  shows "length (attempts (fst (snd (do env st req obj)))) = length (attempts st) + 10
       \<and> length (calls (fst (snd (do env st req obj)))) = length (calls st) + 10
       \<and> fst (do env st req obj) = snd (last (attempts (fst (snd (do env st req obj)))))
       \<and> fst (do env st req obj) \<noteq> None
       \<and> (\<forall>k<10.
            (\<exists>resp. answer env (length (calls st) + k)
                       (calls (fst (snd (do env st req obj))) ! (length (calls st) + k)) = Inr resp
                   \<and> StatusCode resp \<in> {401, 403, 500, 502, 503, 504})
            \<and> wMethod (calls (fst (snd (do env st req obj))) ! (length (calls st) + k)) = Method req
            \<and> wURL (calls (fst (snd (do env st req obj))) ! (length (calls st) + k)) = URL req
            \<and> wHeader (calls (fst (snd (do env st req obj))) ! (length (calls st) + k))
                = Header (do_request st req)
            \<and> wRootCAs (calls (fst (snd (do env st req obj))) ! (length (calls st) + k))
                = CACertPool (config st))
       \<and> (\<exists>resp. answer env (length (calls st) + 9) (last (calls (fst (snd (do env st req obj)))))
                   = Inr resp
                 \<and> fst (do env st req obj) = Some (status_error (Method req) (URL req) [] resp))"
proof -
  let ?R = "do_request st req"
  let ?C = "do_client st"
  let ?res = "do_loop env ?C 0 None st ?R obj"
  let ?st' = "fst (snd ?res)"
  have m: "0 < maxRetries" "maxRetries - 0 = 10" by (simp_all add: maxRetries_def)
  have h: "\<forall>a \<in> set (drop (length (attempts st)) (attempts ?st')). fst a"
    using assms(2) unfolding do_eq .
  from do_loop_all_retryable [OF assms(1) h] m
  have b: "length (attempts ?st') = length (attempts st) + 10"
      "length (calls ?st') = length (calls st) + 10"
      "fst ?res = snd (last (attempts ?st'))" "fst ?res \<noteq> None"
    by metis+
  from do_loop_all_retryable_calls [OF assms(1) h]
  have c: "\<forall>k<10.
            (\<exists>resp. answer env (length (calls st) + k) (calls ?st' ! (length (calls st) + k)) = Inr resp
                   \<and> StatusCode resp \<in> {401, 403, 500, 502, 503, 504})
            \<and> wMethod (calls ?st' ! (length (calls st) + k)) = Method req
            \<and> wURL (calls ?st' ! (length (calls st) + k)) = URL req
            \<and> wHeader (calls ?st' ! (length (calls st) + k)) = Header ?R
            \<and> wRootCAs (calls ?st' ! (length (calls st) + k)) = CACertPool (config st)"
    unfolding m by (simp add: do_client_def)
  from b(4) obtain e where e: "fst ?res = Some e" by blast
  from do_loop_last_attempt [OF e m(1)]
  obtain st\<^sub>l obj\<^sub>l r st\<^sub>a req\<^sub>a obj\<^sub>a ws where
    l: "attemptRequest env ?C st\<^sub>l (if ws = [] then ?R else drained ?R) obj\<^sub>l
          = (r, Some e, st\<^sub>a, req\<^sub>a, obj\<^sub>a)"
      "?st' = log_attempt r (Some e) st\<^sub>a"
      "calls st\<^sub>l = calls st @ ws" "length (attempts st) \<le> length (attempts st\<^sub>l)"
    by blast
  let ?rq = "if ws = [] then ?R else drained ?R"
  note t = attemptRequest_trace [OF l(1)]
  have cl: "calls ?st' = calls st\<^sub>l @ [wire_of env ?C st\<^sub>l ?rq]"
    using l(2) t(1) by simp
  with b(2) l(3) have ws: "length ws = 9" by simp
  then have ne: "ws \<noteq> []" by auto
  have k: "length (calls st\<^sub>l) = length (calls st) + 9" using l(3) ws by simp
  have w: "last (calls ?st') = wire_of env ?C st\<^sub>l ?rq" using cl by simp
  have at: "attempts ?st' = attempts st\<^sub>l @ [(r, Some e)]" using l(2) t(4) by simp
  have "(r, Some e) \<in> set (drop (length (attempts st)) (attempts ?st'))"
    unfolding at using l(4) by simp
  with h have r by auto
  with l(1) have "attemptRequest env ?C st\<^sub>l ?rq obj\<^sub>l = (True, Some e, st\<^sub>a, req\<^sub>a, obj\<^sub>a)"
    by simp
  from attemptRequest_retry_cases [OF this] obtain resp where
    "received env ?C st\<^sub>l ?rq = Inr resp"
    "e = status_error (Method ?rq) (URL ?rq) (bodyBytes ?rq) resp"
    by auto
  then have "answer env (length (calls st) + 9) (last (calls ?st')) = Inr resp"
      "e = status_error (Method req) (URL req) [] resp"
    unfolding w received_def k using ne by simp_all
  with e have d: "\<exists>resp. answer env (length (calls st) + 9) (last (calls ?st')) = Inr resp
      \<and> fst ?res = Some (status_error (Method req) (URL req) [] resp)"
    by blast
  from b c d show ?thesis unfolding do_eq by (intro conjI)
qed

theorem retry_budget_is_ten_attempts_witness:
  "fst (do env503 st0 req_get None)
     = Some (ErrorString ''unexpected status code: req method: GET, req url: https://k8s/api/v1/namespaces/default/pods/vault-0, req body: , resp statuscode: 503, resp respBody: busy'')
   \<and> length (attempts (fst (snd (do env503 st0 req_get None)))) = 10
   \<and> length (calls (fst (snd (do env503 st0 req_get None)))) = 10
   \<and> map wURL (calls (fst (snd (do env503 st0 req_get None))))
       = replicate 10 ''https://k8s/api/v1/namespaces/default/pods/vault-0''
   \<and> map wHeader (calls (fst (snd (do env503 st0 req_get None))))
       = replicate 10 [(''Accept'', ''application/json''), (''Authorization'', ''Bearer old'')]"
proof -
  let ?st' = "fst (snd (do env503 st0 req_get None))"
  have stop: "\<forall>j. 0 < j \<and> j < maxRetries \<longrightarrow> \<not> stopFirst env503 j"
    by (simp add: env503_def env_of_def)
  have net: "\<forall>k w. \<exists>resp. net env503 k w = Inr resp \<and> StatusCode resp \<in> {500, 502, 503, 504}"
    by (simp add: env503_def env_of_def resp_of_def)
  have s: "length (attempts st0) = 0" "length (calls st0) = 0"
      "Method req_get = ''GET''" "URL req_get = ''https://k8s/api/v1/namespaces/default/pods/vault-0''"
      "Header (do_request st0 req_get) = [(''Accept'', ''application/json''), (''Authorization'', ''Bearer old'')]"
    by (simp_all add: st0_def req_get_def do_request_def Header_Set_def cfg_old_def)
  have "\<forall>a \<in> set (drop (length (attempts st0)) (attempts ?st')). fst a"
    unfolding do_eq by (rule do_loop_5xx [OF net stop]) (simp add: do_request_def req_get_def)
  note T = retry_budget_is_ten_attempts [OF stop this, unfolded s add_0]
  from T obtain resp where
    r: "answer env503 9 (last (calls ?st')) = Inr resp"
      "fst (do env503 st0 req_get None)
         = Some (status_error ''GET'' ''https://k8s/api/v1/namespaces/default/pods/vault-0'' [] resp)"
    by blast
  from r(1) have "resp = resp_of 503 ''busy''"
    by (simp add: answer_def env503_def env_of_def split: if_splits)
  with r(2) have e: "fst (do env503 st0 req_get None)
     = Some (ErrorString ''unexpected status code: req method: GET, req url: https://k8s/api/v1/namespaces/default/pods/vault-0, req body: , resp statuscode: 503, resp respBody: busy'')"
    by (simp add: status_error_def debuggingText_def resp_of_def itoa_samples)
  from T have len: "length (attempts ?st') = 10" "length (calls ?st') = 10" by simp_all
  from T have nth: "\<And>k. k < 10 \<Longrightarrow>
      wURL (calls ?st' ! k) = ''https://k8s/api/v1/namespaces/default/pods/vault-0''
      \<and> wHeader (calls ?st' ! k) = [(''Accept'', ''application/json''), (''Authorization'', ''Bearer old'')]"
    by blast
  have u: "map wURL (calls ?st') = replicate 10 ''https://k8s/api/v1/namespaces/default/pods/vault-0''"
    by (rule nth_equalityI) (simp_all add: len nth)
  have h: "map wHeader (calls ?st')
      = replicate 10 [(''Accept'', ''application/json''), (''Authorization'', ''Bearer old'')]"
    by (rule nth_equalityI) (simp_all add: len nth)
  from e len u h show ?thesis by (intro conjI)
qed

text \<open>
  C4. When an attempt (the one at loop index \<open>i\<close>, reached in any state) receives a 401
  or a 403 and the configuration loaded again has the bearer token the client holds, the
  call returns the bad-status error at once: that call is the last network call, and the
  configuration is kept.
\<close>

theorem same_token_on_refresh_is_terminal:
  assumes "i < maxRetries" and "i = 0 \<or> \<not> stopFirst env i"
    and "received env client st req = Inr resp"
    and "StatusCode resp = 401 \<or> StatusCode resp = 403"
    and "inClusterConfig env (reloads st) = Inr cfg"
    and "BearerToken cfg = BearerToken (config st)"
  shows "fst (do_loop env client i lastErr st req obj)
           = Some (ErrorString (''bad status code: '' @ sanitizedDebuggingInfo req (bodyBytes req) resp))
       \<and> calls (fst (snd (do_loop env client i lastErr st req obj))) = calls st @ [wire_of env client st req]
       \<and> config (fst (snd (do_loop env client i lastErr st req obj))) = config st"
proof -
  let ?e = "Some (ErrorString (''bad status code: '' @ sanitizedDebuggingInfo req (bodyBytes req) resp))"
  obtain st' where a: "attemptRequest env client (log_select i st) req obj = (False, ?e, st', drained req, obj)"
    and c: "calls st' = calls st @ [wire_of env client st req]" "config st' = config st"
    using assms(3-6) unfolding attemptRequest_eq Let_def by auto
  from do_loop_terminal [OF assms(1,2) a] c show ?thesis by simp
qed

theorem same_token_on_refresh_is_terminal_witness:
  "fst (do env_same_token st0 req_get None)
     = Some (ErrorString ''bad status code: req method: GET, req url: https://k8s/api/v1/namespaces/default/pods/vault-0, req body: , resp statuscode: 401, resp respBody: Unauthorized'')
   \<and> length (calls (fst (snd (do env_same_token st0 req_get None)))) = 1"
  using same_token_on_refresh_is_terminal [of 0 env_same_token "do_client st0" st0 "do_request st0 req_get"
          "resp_of 401 ''Unauthorized''" cfg_old None None]
  by (simp add: do_eq env_same_token_def env_of_def received_def answer_def wire_of_def mismatch_def rewinds_def do_request_def req_get_def resp_of_def st0_def cfg_old_def
        maxRetries_def sanitizedDebuggingInfo_def ReadAll_def do_request_def req_get_def bodyBytes_def
        itoa_samples)

text \<open>
  C5. When an attempt receives a 404, the call returns at once an error of the type
  \<^verbatim>\<open>*ErrNotFound\<close>, which a caller tells from every other error by its type, and
  that call is the last network call.
\<close>

theorem not_found_is_terminal_and_typed:
  assumes "i < maxRetries" and "i = 0 \<or> \<not> stopFirst env i"
    and "received env client st req = Inr resp"
    and "StatusCode resp = 404"
  shows "fst (do_loop env client i lastErr st req obj)
           = Some (ErrNotFound (sanitizedDebuggingInfo req (bodyBytes req) resp))
       \<and> (\<exists>e. fst (do_loop env client i lastErr st req obj) = Some e \<and> isErrNotFound e)
       \<and> calls (fst (snd (do_loop env client i lastErr st req obj))) = calls st @ [wire_of env client st req]"
proof -
  let ?e = "Some (ErrNotFound (sanitizedDebuggingInfo req (bodyBytes req) resp))"
  obtain st' where a: "attemptRequest env client (log_select i st) req obj = (False, ?e, st', drained req, obj)"
    and c: "calls st' = calls st @ [wire_of env client st req]"
    using assms(3,4) unfolding attemptRequest_eq Let_def by auto
  from do_loop_terminal [OF assms(1,2) a] c show ?thesis by simp
qed

theorem not_found_is_terminal_and_typed_witness:
  "fst (do env_404 st0 req_get None)
     = Some (ErrNotFound ''req method: GET, req url: https://k8s/api/v1/namespaces/default/pods/vault-0, req body: , resp statuscode: 404, resp respBody: gone'')
   \<and> length (calls (fst (snd (do env_404 st0 req_get None)))) = 1"
  using not_found_is_terminal_and_typed [of 0 env_404 "do_client st0" st0 "do_request st0 req_get"
          "resp_of 404 ''gone''" None None]
  by (simp add: do_eq env_404_def env_of_def received_def answer_def wire_of_def mismatch_def rewinds_def do_request_def req_get_def resp_of_def st0_def
        maxRetries_def sanitizedDebuggingInfo_def ReadAll_def do_request_def req_get_def bodyBytes_def
        itoa_samples)

text \<open>
  C6. In every run of \<^verbatim>\<open>do\<close> in which the wait before some attempt \<open>i\<close> is ended
  by the stop channel, the call returns nil; that wait is the last event of the run, and
  the network calls of the run are the \<open>i\<close> calls of the attempts before it: none is
  made after the stop. Such a wait only exists for \<open>0 < i < maxRetries\<close>.
\<close>

theorem stop_during_wait_returns_nil:
  assumes "i \<in> set (drop (length (selects st)) (selects (fst (snd (do env st req obj)))))"
    and "stopFirst env i"
  shows "fst (do env st req obj) = None
       \<and> length (calls (fst (snd (do env st req obj)))) = length (calls st) + i
       \<and> last (selects (fst (snd (do env st req obj)))) = i
       \<and> 0 < i \<and> i < maxRetries"
proof -
  obtain zs where "selects (fst (snd (do env st req obj))) = selects st @ zs"
      "set zs \<subseteq> {j. 0 < j \<and> j < maxRetries}"
    using do_loop_selects [of env "do_client st" 0 None st "do_request st req" obj]
    unfolding do_eq by blast
  with assms(1) have "0 < i \<and> i < maxRetries" by auto
  with do_loop_stop_taken [of i st env "do_client st" 0 None "do_request st req" obj] assms
  show ?thesis unfolding do_eq by simp
qed

theorem stop_during_wait_returns_nil_witness:
  "fst (do env_stop st0 req_get None) = None
   \<and> length (calls (fst (snd (do env_stop st0 req_get None)))) = 1
   \<and> selects (fst (snd (do env_stop st0 req_get None))) = [1]"
proof -
  have "length (selects st0) = 0" by (simp add: st0_def)
  then have "1 \<in> set (drop (length (selects st0)) (selects (fst (snd (do env_stop st0 req_get None)))))"
    by (simp add: run_stop)
  moreover have "stopFirst env_stop 1" by (simp add: env_stop_def env_of_def)
  moreover have "length (calls st0) = 0" by (simp add: st0_def)
  ultimately show ?thesis
    using stop_during_wait_returns_nil [of 1 st0 env_stop req_get None] run_stop by simp
qed




text \<open>
  C8. When the namespace is empty or the pod name is empty, \<^verbatim>\<open>GetPod\<close> and
  \<^verbatim>\<open>PatchPod\<close> both return at once the matching unset error
  (\<^verbatim>\<open>ErrNamespaceUnset\<close> for an empty namespace, else \<^verbatim>\<open>ErrPodNameUnset\<close>),
  the two errors differ, and the state is untouched: no network call is made.
\<close>

theorem unset_identifier_fails_without_network:
  assumes "namespace = [] \<or> podName = []"
  shows "GetPod env st namespace podName
           = (Inl (if namespace = [] then ErrNamespaceUnset else ErrPodNameUnset), st)
       \<and> PatchPod env st namespace podName patches
           = (Some (if namespace = [] then ErrNamespaceUnset else ErrPodNameUnset), st)
       \<and> ErrNamespaceUnset \<noteq> ErrPodNameUnset"
  using assms by (auto simp: GetPod_def PatchPod_def Let_def)

theorem unset_identifier_fails_without_network_witness:
  "GetPod (env_of (\<lambda>k. resp_of 200 ''pod'') (\<lambda>k. Inr cfg_new) (\<lambda>i. False)) st0 [] ''vault-0''
     = (Inl ErrNamespaceUnset, st0)
   \<and> PatchPod (env_of (\<lambda>k. resp_of 200 ''pod'') (\<lambda>k. Inr cfg_new) (\<lambda>i. False)) st0 ''default'' [] [patch0]
     = (Some ErrPodNameUnset, st0)"
  using unset_identifier_fails_without_network
          [where namespace = "[]" and podName = "''vault-0''" and st = st0 and patches = "[patch0]"
             and env = "env_of (\<lambda>k. resp_of 200 ''pod'') (\<lambda>k. Inr cfg_new) (\<lambda>i. False)"]
        unset_identifier_fails_without_network
          [where namespace = "''default''" and podName = "[]" and st = st0 and patches = "[patch0]"
             and env = "env_of (\<lambda>k. resp_of 200 ''pod'') (\<lambda>k. Inr cfg_new) (\<lambda>i. False)"]
  by simp

text \<open>
  C9. When an attempt receives a 401 or a 403 and loading the configuration again fails,
  the call returns that loader's error at once (not the bad-status error), that call is
  the last network call, and the configuration is kept.
\<close>

theorem config_reload_failure_is_terminal:
  assumes "i < maxRetries" and "i = 0 \<or> \<not> stopFirst env i"
    and "received env client st req = Inr resp"
    and "StatusCode resp = 401 \<or> StatusCode resp = 403"
    and "inClusterConfig env (reloads st) = Inl e"
  shows "fst (do_loop env client i lastErr st req obj) = Some e
       \<and> calls (fst (snd (do_loop env client i lastErr st req obj))) = calls st @ [wire_of env client st req]
       \<and> config (fst (snd (do_loop env client i lastErr st req obj))) = config st"
proof -
  obtain st' where a: "attemptRequest env client (log_select i st) req obj = (False, Some e, st', drained req, obj)"
    and c: "calls st' = calls st @ [wire_of env client st req]" "config st' = config st"
    using assms(3-5) unfolding attemptRequest_eq Let_def by auto
  from do_loop_terminal [OF assms(1,2) a] c show ?thesis by simp
qed

theorem config_reload_failure_is_terminal_witness:
  "fst (do env_not_in_cluster st0 req_get None) = Some ErrNotInCluster
   \<and> length (calls (fst (snd (do env_not_in_cluster st0 req_get None)))) = 1"
  using config_reload_failure_is_terminal [of 0 env_not_in_cluster "do_client st0" st0 "do_request st0 req_get"
          "resp_of 403 ''Forbidden''" ErrNotInCluster None None]
  by (simp add: do_eq env_not_in_cluster_def env_of_def received_def answer_def wire_of_def mismatch_def rewinds_def do_request_def req_get_def resp_of_def st0_def maxRetries_def)

text \<open>
  C10. Every call of \<^verbatim>\<open>do\<close> makes its first network call, with the request and
  the client as set up, whatever the stop channel does: with a stop channel that is
  always ready exactly that one call is made; what the stop channel would answer at
  index 0 changes nothing; and the \<^verbatim>\<open>select\<close> only ever runs at the indices
  1 to 9.
\<close>

theorem first_attempt_runs_before_any_stop_check:
  "(\<exists>ws. calls (fst (snd (do env st req obj)))
            = calls st @ wire_of env (do_client st) st (do_request st req) # ws)
   \<and> calls (fst (snd (do (env\<lparr>stopFirst := \<lambda>j. True\<rparr>) st req obj)))
        = calls st @ [wire_of env (do_client st) st (do_request st req)]
   \<and> do (env\<lparr>stopFirst := (stopFirst env)(0 := b)\<rparr>) st req obj = do env st req obj
   \<and> (\<exists>zs. selects (fst (snd (do env st req obj))) = selects st @ zs
          \<and> set zs \<subseteq> {j. 0 < j \<and> j < maxRetries})"
  unfolding do_eq
  using do_loop_first_call [of env "do_client st" None st "do_request st req" obj]
    do_loop_stopped_at_once [of "env\<lparr>stopFirst := \<lambda>j. True\<rparr>" "do_client st" None st "do_request st req" obj]
    do_loop_stopFirst_cong [of "(stopFirst env)(0 := b)" env "do_client st" 0 None st "do_request st req" obj]
    do_loop_selects [of env "do_client st" 0 None st "do_request st req" obj]
  by simp

end
